theory Spec2Isabelle
  imports Main
begin

section \<open>Size ranges of the code search (RepositoryDiscoveryWorker.generateSizeRanges)\<close>

text \<open>
  The template literal \<open>`${start}..${start + 199}`\<close> renders both numbers in decimal.
  \<open>numberToString\<close> is that rendering for the non-negative integers the loops produce.
\<close>

definition digitChar :: "nat \<Rightarrow> char" where
  "digitChar d = ''0123456789'' ! d"

function numberToString :: "nat \<Rightarrow> string" where
  "numberToString n =
     (if n < 10 then [digitChar n]
      else numberToString (n div 10) @ [digitChar (n mod 10)])"
  by pat_completeness auto
termination
  by (relation "measure id") auto

definition sizeRange :: "nat \<Rightarrow> nat \<Rightarrow> string" where
  "sizeRange lo hi = numberToString lo @ ''..'' @ numberToString hi"

text \<open>
  The five \<open>while\<close> loops of \<open>generateSizeRanges\<close>, in source order. Each takes the
  current \<open>start\<close> and the \<open>ranges\<close> pushed so far and returns both when its bound is reached.
\<close>

function sizeBand1 :: "nat \<Rightarrow> string list \<Rightarrow> nat \<times> string list" where
  "sizeBand1 start ranges =
     (if start < 1000
      then sizeBand1 (start + 150) (ranges @ [sizeRange start (start + 199)])
      else (start, ranges))"
  by pat_completeness auto
termination
  by (relation "measure (\<lambda>(start, ranges). 1000 - start)") auto

function sizeBand2 :: "nat \<Rightarrow> string list \<Rightarrow> nat \<times> string list" where
  "sizeBand2 start ranges =
     (if start < 3000
      then sizeBand2 (start + 250) (ranges @ [sizeRange start (start + 499)])
      else (start, ranges))"
  by pat_completeness auto
termination
  by (relation "measure (\<lambda>(start, ranges). 3000 - start)") auto

function sizeBand3 :: "nat \<Rightarrow> string list \<Rightarrow> nat \<times> string list" where
  "sizeBand3 start ranges =
     (if start < 5000
      then sizeBand3 (start + 500) (ranges @ [sizeRange start (start + 999)])
      else (start, ranges))"
  by pat_completeness auto
termination
  by (relation "measure (\<lambda>(start, ranges). 5000 - start)") auto

function sizeBand4 :: "nat \<Rightarrow> string list \<Rightarrow> nat \<times> string list" where
  "sizeBand4 start ranges =
     (if start < 10000
      then sizeBand4 (start + 1000) (ranges @ [sizeRange start (start + 1999)])
      else (start, ranges))"
  by pat_completeness auto
termination
  by (relation "measure (\<lambda>(start, ranges). 10000 - start)") auto

function sizeBand5 :: "nat \<Rightarrow> string list \<Rightarrow> nat \<times> string list" where
  "sizeBand5 start ranges =
     (if start < 15000
      then sizeBand5 (start + 5000) (ranges @ [sizeRange start (start + 4999)])
      else (start, ranges))"
  by pat_completeness auto
termination
  by (relation "measure (\<lambda>(start, ranges). 15000 - start)") auto

definition generateSizeRanges :: "string list" where
  "generateSizeRanges =
     (let (start1, ranges1) = sizeBand1 0 [];
          (start2, ranges2) = sizeBand2 start1 ranges1;
          (start3, ranges3) = sizeBand3 start2 ranges2;
          (start4, ranges4) = sizeBand4 start3 ranges3;
          (start5, ranges5) = sizeBand5 start4 ranges4
      in ranges5)"

text \<open>
  The numeric bounds of the ranges, used to state which sizes the rendered ranges cover.
\<close>

definition coversSize :: "(nat \<times> nat) list \<Rightarrow> nat \<Rightarrow> bool" where
  "coversSize bounds sz = list_ex (\<lambda>(lo, hi). lo \<le> sz \<and> sz \<le> hi) bounds"

section \<open>The credential pool and request scheduler (TokenManager)\<close>

text \<open>
  A thrown JavaScript error: \<open>status\<close> is the HTTP status of a failed request and is absent
  (\<open>None\<close>) on errors made with \<open>new Error(...)\<close> and on TypeErrors.
\<close>

record js_error =
  status :: "int option"
  message :: string

definition plainError :: "string \<Rightarrow> js_error" where
  "plainError msg = \<lparr>status = None, message = msg\<rparr>"

definition typeError :: js_error where
  "typeError = plainError ''Cannot read properties of undefined''"

text \<open>\<open>String.prototype.includes\<close> on byte strings.\<close>

fun startsWith :: "string \<Rightarrow> string \<Rightarrow> bool" where
  "startsWith s [] = True"
| "startsWith [] (p # ps) = False"
| "startsWith (c # cs) (p # ps) = (c = p \<and> startsWith cs ps)"

fun includesStr :: "string \<Rightarrow> string \<Rightarrow> bool" where
  "includesStr [] sub = (sub = [])"
| "includesStr (c # cs) sub = (startsWith (c # cs) sub \<or> includesStr cs sub)"

record rate_limit =
  remaining :: int
  reset :: int
  limit :: int

type_synonym resources = "string \<rightharpoonup> rate_limit"

text \<open>
  One element of \<open>this.tokens\<close>. The \<open>octokit\<close> client of an element is identified with the
  element's index, which is also its \<open>id\<close>.
\<close>

record token_entry =
  token :: string
  rateLimits :: resources
  lastUsed :: int
  isHealthy :: bool
  consecutiveErrors :: nat

text \<open>
  The TokenManager object together with the effects a call has on the outside: how many times
  \<open>Date.now()\<close> was read, which tokens were probed with \<open>GET /rate_limit\<close> (in order), how many
  times the caller's request function ran, the durations passed to \<open>sleep\<close> (in order), and
  the errors that entered the \<open>catch\<close> of \<open>execute\<close> (in order; each is assigned to
  \<open>lastError\<close> there).
\<close>

record scheduler =
  tokens :: "token_entry list"
  currentIndex :: nat
  rotationLock :: bool
  clockReads :: nat
  probes :: "nat list"
  calls :: nat
  sleeps :: "int list"
  caught :: "js_error list"

text \<open>
  The outside world: the value of the k-th \<open>Date.now()\<close>, and the answer to the k-th
  \<open>GET /rate_limit\<close> sent with a given token (\<open>None\<close> when that request fails).
\<close>

record upstream =
  dateNow :: "nat \<Rightarrow> int"
  rateLimitReply :: "nat \<Rightarrow> nat \<Rightarrow> resources option"

datatype 'a constructed = Thrown js_error | Constructed 'a

definition initialRateLimits :: resources where
  "initialRateLimits =
     [''core'' \<mapsto> \<lparr>remaining = 5000, reset = 0, limit = 5000\<rparr>,
      ''search'' \<mapsto> \<lparr>remaining = 30, reset = 0, limit = 30\<rparr>,
      ''graphql'' \<mapsto> \<lparr>remaining = 5000, reset = 0, limit = 5000\<rparr>,
      ''integration_manifest'' \<mapsto> \<lparr>remaining = 5000, reset = 0, limit = 5000\<rparr>,
      ''code_search'' \<mapsto> \<lparr>remaining = 10, reset = 0, limit = 10\<rparr>]"

definition newTokenEntry :: "string \<Rightarrow> token_entry" where
  "newTokenEntry t =
     \<lparr>token = t, rateLimits = initialRateLimits, lastUsed = 0, isHealthy = True,
      consecutiveErrors = 0\<rparr>"

text \<open>
  \<open>new TokenManager(tokens)\<close>. The argument is \<open>None\<close> when the caller passes
  \<open>undefined\<close> or \<open>null\<close>.
\<close>

definition newTokenManager :: "string list option \<Rightarrow> scheduler constructed" where
  "newTokenManager arg =
     (case arg of
        None \<Rightarrow> Thrown (plainError ''No GitHub tokens provided'')
      | Some ts \<Rightarrow>
          if length ts = 0 then Thrown (plainError ''No GitHub tokens provided'')
          else Constructed
                 \<lparr>tokens = map newTokenEntry ts, currentIndex = 0, rotationLock = False,
                  clockReads = 0, probes = [], calls = 0, sleeps = [], caught = []\<rparr>)"

text \<open>
  \<open>config.github.tokens\<close>: the values of \<open>GITHUB_TOKEN_1\<close>, \<open>GITHUB_TOKEN_2\<close>, ... up to the
  first index that is unset or empty; the environment is given as the list of those lookups.
  \<open>new GitHubService()\<close> reads that list from the configuration.
\<close>

record github_service =
  tokenManager :: scheduler

definition newGitHubService :: "string list \<Rightarrow> github_service constructed" where
  "newGitHubService configTokens =
     (if length configTokens = 0 then Thrown (plainError ''No GitHub tokens configured'')
      else case newTokenManager (Some configTokens) of
             Thrown e \<Rightarrow> Thrown e
           | Constructed tm \<Rightarrow> Constructed \<lparr>tokenManager = tm\<rparr>)"

definition readClock :: "upstream \<Rightarrow> scheduler \<Rightarrow> int \<times> scheduler" where
  "readClock up s = (dateNow up (clockReads s), s\<lparr>clockReads := Suc (clockReads s)\<rparr>)"

definition sleep :: "int \<Rightarrow> scheduler \<Rightarrow> scheduler" where
  "sleep ms s = s\<lparr>sleeps := sleeps s @ [ms]\<rparr>"

text \<open>
  \<open>updateRateLimits(tokenIndex)\<close>; every call site passes an index below
  \<open>this.tokens.length\<close>. On a reply the snapshot is replaced and the error counter cleared;
  the debug line that follows reads the \<open>core\<close>, \<open>search\<close> and \<open>code_search\<close> buckets inside
  the same \<open>try\<close>, so a reply without one of them lands in the \<open>catch\<close> after the token
  was already updated. On a failed request the counter is incremented and the token turns
  unhealthy at three. The return value is not used by any caller modelled here.
\<close>

definition updateRateLimits :: "upstream \<Rightarrow> nat \<Rightarrow> scheduler \<Rightarrow> scheduler" where
  "updateRateLimits up tokenIndex s =
     (let tok = tokens s ! tokenIndex;
          s1 = s\<lparr>probes := probes s @ [tokenIndex]\<rparr>
      in case rateLimitReply up (length (probes s)) tokenIndex of
           Some res \<Rightarrow>
             let tok1 = tok\<lparr>rateLimits := res, isHealthy := True, consecutiveErrors := 0\<rparr>
             in if res ''core'' \<noteq> None \<and> res ''search'' \<noteq> None \<and> res ''code_search'' \<noteq> None
                then s1\<lparr>tokens := (tokens s)[tokenIndex := tok1]\<rparr>
                else s1\<lparr>tokens := (tokens s)[tokenIndex := tok1\<lparr>consecutiveErrors := 1\<rparr>]\<rparr>
         | None \<Rightarrow>
             let n = Suc (consecutiveErrors tok)
             in s1\<lparr>tokens := (tokens s)[tokenIndex :=
                      tok\<lparr>consecutiveErrors := n,
                          isHealthy := (if 3 \<le> n then False else isHealthy tok)\<rparr>]\<rparr>)"

text \<open>What \<open>getBestToken\<close> returns: the client, the token's index, and the remaining quota read.\<close>

record selection =
  octokit :: nat
  tokenId :: nat
  quota :: int

definition selectToken :: "nat \<Rightarrow> int \<Rightarrow> int \<Rightarrow> scheduler \<Rightarrow> selection \<times> scheduler" where
  "selectToken index now rem s =
     (\<lparr>octokit = index, tokenId = index, quota = rem\<rparr>,
      s\<lparr>tokens := (tokens s)[index := (tokens s ! index)\<lparr>lastUsed := now\<rparr>],
        currentIndex := (index + 1) mod length (tokens s)\<rparr>)"

text \<open>
  The body of the \<open>for\<close> loop of \<open>getBestToken\<close> for one index. \<open>Inr None\<close> means the loop
  goes on (\<open>continue\<close>, or the end of the body), \<open>Inr (Some sel)\<close> is a \<open>return\<close>, and \<open>Inl\<close>
  is the TypeError of reading \<open>.remaining\<close> of a bucket that the refreshed snapshot does not have.
\<close>

definition examineToken ::
  "upstream \<Rightarrow> string \<Rightarrow> nat \<Rightarrow> scheduler \<Rightarrow> (js_error + selection option) \<times> scheduler"
where
  "examineToken up apiType index s =
     (if \<not> isHealthy (tokens s ! index) then (Inr None, s)
      else
        let (now, s1) = readClock up s;
            s2 = (if now - lastUsed (tokens s1 ! index) > 60000
                  then updateRateLimits up index s1 else s1)
        in case rateLimits (tokens s2 ! index) apiType of
             None \<Rightarrow> (Inr None, s2)
           | Some rateLimit \<Rightarrow>
               if remaining rateLimit > 0
               then (case selectToken index now (remaining rateLimit) s2 of
                       (sel, s3) \<Rightarrow> (Inr (Some sel), s3))
               else if reset rateLimit * 1000 < now
               then (let s3 = updateRateLimits up index s2
                     in case rateLimits (tokens s3 ! index) apiType of
                          None \<Rightarrow> (Inl typeError, s3)
                        | Some refreshed \<Rightarrow>
                            if remaining refreshed > 0
                            then (case selectToken index now (remaining refreshed) s3 of
                                    (sel, s4) \<Rightarrow> (Inr (Some sel), s4))
                            else (Inr None, s3))
               else (Inr None, s2))"

text \<open>
  The loop itself, over the indices \<open>(currentIndex + i) % length\<close> in the order visited.
  \<open>Inr None\<close> means the loop ended without returning.
\<close>

fun scanTokens ::
  "upstream \<Rightarrow> string \<Rightarrow> nat list \<Rightarrow> scheduler \<Rightarrow> (js_error + selection option) \<times> scheduler"
where
  "scanTokens up apiType [] s = (Inr None, s)"
| "scanTokens up apiType (index # rest) s =
     (case examineToken up apiType index s of
        (Inr None, s1) \<Rightarrow> scanTokens up apiType rest s1
      | (Inr (Some sel), s1) \<Rightarrow> (Inr (Some sel), s1)
      | (Inl e, s1) \<Rightarrow> (Inl e, s1))"

definition scanOrder :: "scheduler \<Rightarrow> nat list" where
  "scanOrder s =
     map (\<lambda>i. (currentIndex s + i) mod length (tokens s)) [0..<length (tokens s)]"

text \<open>
  The \<open>.map((t, idx) => ...)\<close> over the healthy tokens: \<open>idx\<close> is the position in the
  filtered array. \<open>reset * 1000 || Date.now()\<close> reads the clock when the bucket is missing or
  its reset is 0.
\<close>

fun resetTimesOf ::
  "upstream \<Rightarrow> string \<Rightarrow> token_entry list \<Rightarrow> nat \<Rightarrow> scheduler \<Rightarrow> (nat \<times> int) list \<times> scheduler"
where
  "resetTimesOf up apiType [] idx s = ([], s)"
| "resetTimesOf up apiType (t # ts) idx s =
     (let (resetTime, s1) =
            (case rateLimits t apiType of
               None \<Rightarrow> readClock up s
             | Some rateLimit \<Rightarrow>
                 if reset rateLimit * 1000 \<noteq> 0 then (reset rateLimit * 1000, s)
                 else readClock up s);
          (others, s2) = resetTimesOf up apiType ts (Suc idx) s1
      in ((idx, resetTime) # others, s2))"

text \<open>
  The part of \<open>getBestToken\<close> after the loop. \<open>Array.prototype.sort\<close> is stable, as
  \<open>sort_key\<close> is.
\<close>

definition waitForReset ::
  "upstream \<Rightarrow> string \<Rightarrow> scheduler \<Rightarrow> (js_error + selection) \<times> scheduler"
where
  "waitForReset up apiType s =
     (let (unsorted, s1) = resetTimesOf up apiType (filter isHealthy (tokens s)) 0 s
      in case sort_key snd unsorted of
           [] \<Rightarrow> (Inl (plainError ''No healthy tokens available''), s1)
         | soonestReset # others \<Rightarrow>
            (let (t1, s2) = readClock up s1;
                 waitTime = max 0 (snd soonestReset - t1) + 1000;
                 s3 = sleep waitTime s2;
                 s4 = updateRateLimits up (fst soonestReset) s3;
                 (t2, s5) = readClock up s4;
                 s6 = s5\<lparr>tokens := (tokens s5)[fst soonestReset :=
                           (tokens s5 ! fst soonestReset)\<lparr>lastUsed := t2\<rparr>]\<rparr>
             in (case rateLimits (tokens s6 ! fst soonestReset) apiType of
                   None \<Rightarrow> (Inl typeError, s6)
                 | Some rateLimit \<Rightarrow>
                     (Inr \<lparr>octokit = fst soonestReset, tokenId = fst soonestReset,
                           quota = remaining rateLimit\<rparr>, s6))))"

text \<open>
  \<open>getBestToken(apiType)\<close> from the point where the caller holds the rotation lock: the wait
  for a lock held by another caller is outside a sequential model. The \<open>finally\<close> releases it.
\<close>

definition getBestToken ::
  "upstream \<Rightarrow> string \<Rightarrow> scheduler \<Rightarrow> (js_error + selection) \<times> scheduler"
where
  "getBestToken up apiType s =
     (let s0 = s\<lparr>rotationLock := True\<rparr>;
          (found, s1) = scanTokens up apiType (scanOrder s0) s0;
          (result, s2) = (case found of
                            Inl e \<Rightarrow> (Inl e, s1)
                          | Inr (Some sel) \<Rightarrow> (Inr sel, s1)
                          | Inr None \<Rightarrow> waitForReset up apiType s1)
      in (result, s2\<lparr>rotationLock := False\<rparr>))"

text \<open>The tokens probed during a call, in order, given the states before and after it.\<close>

definition probesSent :: "scheduler \<Rightarrow> scheduler \<Rightarrow> nat list" where
  "probesSent before after = drop (length (probes before)) (probes after)"

text \<open>The call reaches the code after the loop: every credential was passed over.\<close>

definition takesWaitPath :: "upstream \<Rightarrow> string \<Rightarrow> scheduler \<Rightarrow> bool" where
  "takesWaitPath up apiType s =
     (fst (scanTokens up apiType (scanOrder s) (s\<lparr>rotationLock := True\<rparr>)) = Inr None)"

text \<open>
  The body of the \<open>try\<close> in \<open>execute\<close>: choose a credential, run the request function (its
  k-th invocation, on the chosen client), refresh the credential after a success.
\<close>

definition tryRequest ::
  "upstream \<Rightarrow> string \<Rightarrow> (nat \<Rightarrow> nat \<Rightarrow> js_error + 'a) \<Rightarrow> scheduler \<Rightarrow> (js_error + 'a) \<times> scheduler"
where
  "tryRequest up apiType requestFn s =
     (case getBestToken up apiType s of
        (Inl e, s1) \<Rightarrow> (Inl e, s1)
      | (Inr sel, s1) \<Rightarrow>
         (let s2 = s1\<lparr>calls := Suc (calls s1)\<rparr>
          in (case requestFn (calls s1) (octokit sel) of
                Inl e \<Rightarrow> (Inl e, s2)
              | Inr result \<Rightarrow> (Inr result, updateRateLimits up (tokenId sel) s2))))"

definition isRateLimitError :: "js_error \<Rightarrow> bool" where
  "isRateLimitError e = (status e = Some 403 \<and> includesStr (message e) ''rate limit'')"

definition isSecondaryRateLimitError :: "js_error \<Rightarrow> bool" where
  "isSecondaryRateLimitError e =
     (status e = Some 403 \<and> includesStr (message e) ''secondary rate limit'')"

definition isClientError :: "js_error \<Rightarrow> bool" where
  "isClientError e = (case status e of None \<Rightarrow> False | Some code \<Rightarrow> 400 \<le> code \<and> code < 500)"

definition isServerError :: "js_error \<Rightarrow> bool" where
  "isServerError e = (case status e of None \<Rightarrow> False | Some code \<Rightarrow> 500 \<le> code)"

text \<open>The first statement of the \<open>catch\<close> in \<open>execute\<close>: \<open>lastError = error\<close>.\<close>

definition catchError :: "js_error \<Rightarrow> scheduler \<Rightarrow> scheduler" where
  "catchError error s = s\<lparr>caught := caught s @ [error]\<rparr>"

text \<open>
  The \<open>for\<close> loop of \<open>execute\<close> over the attempt numbers still to run, with \<open>lastError\<close> as
  assigned so far, and the \<open>throw\<close> after the loop.
\<close>

fun executeAttempts ::
  "upstream \<Rightarrow> string \<Rightarrow> (nat \<Rightarrow> nat \<Rightarrow> js_error + 'a) \<Rightarrow> nat list \<Rightarrow> js_error option \<Rightarrow>
   scheduler \<Rightarrow> (js_error + 'a) \<times> scheduler"
where
  "executeAttempts up apiType requestFn [] lastError s =
     (case lastError of
        Some e \<Rightarrow> (Inl e, s)
      | None \<Rightarrow> (Inl (plainError ''All token rotation attempts failed''), s))"
| "executeAttempts up apiType requestFn (attempt # later) lastError s =
     (case tryRequest up apiType requestFn s of
        (Inr result, s1) \<Rightarrow> (Inr result, s1)
      | (Inl error, s1) \<Rightarrow>
          if isRateLimitError error
          then executeAttempts up apiType requestFn later (Some error) (catchError error s1)
          else if isSecondaryRateLimitError error
          then executeAttempts up apiType requestFn later (Some error)
                 (sleep 60000 (catchError error s1))
          else if isClientError error then (Inl error, catchError error s1)
          else if isServerError error
          then executeAttempts up apiType requestFn later (Some error)
                 (sleep (2000 * (int attempt + 1)) (catchError error s1))
          else (Inl error, catchError error s1))"

definition execute ::
  "upstream \<Rightarrow> string \<Rightarrow> (nat \<Rightarrow> nat \<Rightarrow> js_error + 'a) \<Rightarrow> scheduler \<Rightarrow> (js_error + 'a) \<times> scheduler"
where
  "execute up apiType requestFn s =
     executeAttempts up apiType requestFn [0..<length (tokens s)] None s"

section \<open>The service wrapper and the storage seen by the workers\<close>

record week_entry =
  week_w :: int
  week_a :: int
  week_d :: int
  week_c :: int

text \<open>
  One element of the contributor statistics: \<open>author\<close> is \<open>None\<close> when the element has no
  author object, otherwise the author's \<open>login\<close>.
\<close>

record contribution =
  author :: "string option"
  weeks :: "week_entry list"

text \<open>The response of the statistics request: HTTP status and \<open>data\<close> (absent or a list).\<close>

record stats_response =
  http_status :: int
  stats_data :: "contribution list option"

record user_info =
  user_name :: string
  user_html_url :: string
  avatar_url :: string
  user_location :: string
  twitter_username :: string

record repo_details =
  created_at :: int
  open_issues_count :: int
  stargazers_count :: int

text \<open>
  A row of \<open>SolanaGithubRepos\<close> as the workers build it; \<open>started\<close> is in epoch seconds.
\<close>

record repo_data =
  repoId :: string
  name :: string
  url :: string
  owner :: string
  started :: int
  ecosystem :: string
  isClosedSource :: bool
  issuesAndPrs :: int
  stars :: int

record developer =
  developerId :: nat
  username :: string
  profile :: user_info

record activity =
  commits :: int
  additions :: int
  deletions :: int
  date :: int
  actDeveloperId :: nat
  actRepositoryId :: nat

text \<open>
  The state the workers act on: the number of \<open>tokenManager.execute\<close> calls made so far, the
  durations slept, the number of storage calls made so far, the four tables, and the discovery
  worker's \<open>processedRepos\<close> set.
\<close>

record world =
  executions :: nat
  pauses :: "int list"
  storageCalls :: nat
  repositories :: "repo_data list"
  repoTypes :: "(string \<times> string) list"
  developers :: "developer list"
  activities :: "activity list"
  processedRepos :: "string set"

text \<open>
  What the searches return: a code search item names its repository (absent on a malformed
  item), with the owner always present; a repository search item carries the repository's
  own fields. \<open>created_at\<close> is taken as the epoch milliseconds that
  \<open>new Date(created_at).getTime()\<close> yields.
\<close>

record repository_ref =
  ref_id :: nat
  ref_name :: string
  owner_login :: string
  html_url :: string

record search_item =
  repository :: "repository_ref option"

record repo_item =
  item_ref :: repository_ref
  item_details :: repo_details

text \<open>
  The outside of the workers: what the k-th call of \<open>tokenManager.execute\<close> yields for each
  kind of request (the thrown error or the response), and whether the k-th storage call fails.
\<close>

record github =
  statsReply :: "nat \<Rightarrow> string \<Rightarrow> string \<Rightarrow> js_error + stats_response"
  userReply :: "nat \<Rightarrow> string \<Rightarrow> js_error + user_info"
  repoReply :: "nat \<Rightarrow> string \<Rightarrow> string \<Rightarrow> js_error + repo_details"
  codeSearchReply :: "nat \<Rightarrow> string \<Rightarrow> nat \<Rightarrow> js_error + search_item list"
  repoSearchReply :: "nat \<Rightarrow> string \<Rightarrow> nat \<Rightarrow> js_error + repo_item list"
  storageFails :: "nat \<Rightarrow> bool"

text \<open>
  \<open>pause\<close> is the \<open>sleep\<close> of the service and of the workers; \<open>executed\<close> and \<open>stored\<close>
  count a call of \<open>tokenManager.execute\<close> and a storage call.
\<close>

definition pause :: "int \<Rightarrow> world \<Rightarrow> world" where
  "pause ms s = s\<lparr>pauses := pauses s @ [ms]\<rparr>"

definition executed :: "world \<Rightarrow> world" where
  "executed s = s\<lparr>executions := Suc (executions s)\<rparr>"

definition stored :: "world \<Rightarrow> world" where
  "stored s = s\<lparr>storageCalls := Suc (storageCalls s)\<rparr>"

definition storageError :: js_error where
  "storageError = plainError ''storage call failed''"

text \<open>
  \<open>GitHubService.getContributorsActivity\<close>. The result is \<open>None\<close> when the call never
  returns; otherwise the thrown error or the returned value (\<open>null\<close> is \<open>Inr None\<close>).
\<close>

partial_function (option) getContributorsActivity ::
  "github \<Rightarrow> string \<Rightarrow> string \<Rightarrow> world \<Rightarrow>
   ((js_error + contribution list option) \<times> world) option"
where
  "getContributorsActivity gh ownerName repoName s =
     (case statsReply gh (executions s) ownerName repoName of
        Inr response \<Rightarrow>
          if http_status response = 202
          then getContributorsActivity gh ownerName repoName (pause 2000 (executed s))
          else Some (Inr (Some (case stats_data response of None \<Rightarrow> [] | Some d \<Rightarrow> d)),
                     executed s)
      | Inl error \<Rightarrow>
          if status error = Some 404 then Some (Inr None, executed s)
          else Some (Inl error, executed s))"

text \<open>The k-th call of \<open>tokenManager.execute\<close> answers the statistics request with a 202.\<close>

definition stillComputing :: "github \<Rightarrow> string \<Rightarrow> string \<Rightarrow> nat \<Rightarrow> bool" where
  "stillComputing gh ownerName repoName k =
     (case statsReply gh k ownerName repoName of
        Inl error \<Rightarrow> False
      | Inr response \<Rightarrow> http_status response = 202)"

definition getUser :: "github \<Rightarrow> string \<Rightarrow> world \<Rightarrow> (js_error + user_info option) \<times> world" where
  "getUser gh uname s =
     (case userReply gh (executions s) uname of
        Inr userInfo \<Rightarrow> (Inr (Some userInfo), executed s)
      | Inl error \<Rightarrow>
          if status error = Some 404 then (Inr None, executed s)
          else (Inl error, executed s))"


subsection \<open>Storage (DatabaseService)\<close>

text \<open>
  \<open>bulkCreate(..., { ignoreDuplicates: true })\<close>: a row is inserted unless a row with the same
  unique key is already there, rows earlier in the same batch included.
\<close>

fun insertIgnore :: "('a \<Rightarrow> 'k) \<Rightarrow> 'a list \<Rightarrow> 'a list \<Rightarrow> 'a list" where
  "insertIgnore key table [] = table"
| "insertIgnore key table (row # batch) =
     (if key row \<in> set (map key table) then insertIgnore key table batch
      else insertIgnore key (table @ [row]) batch)"


definition bulkCreateRepoTypes ::
  "github \<Rightarrow> (string \<times> string) list \<Rightarrow> world \<Rightarrow> (js_error + unit) \<times> world"
where
  "bulkCreateRepoTypes gh repoTypesData s =
     (if storageFails gh (storageCalls s) then (Inl storageError, stored s)
      else (Inr (), (stored s)\<lparr>repoTypes := repoTypes s @ repoTypesData\<rparr>))"


definition markRepositoryClosedSource ::
  "github \<Rightarrow> string \<Rightarrow> world \<Rightarrow> (js_error + unit) \<times> world"
where
  "markRepositoryClosedSource gh rid s =
     (if storageFails gh (storageCalls s) then (Inl storageError, stored s)
      else (Inr (), (stored s)\<lparr>repositories :=
                       map (\<lambda>r. if repoId r = rid then r\<lparr>isClosedSource := True\<rparr> else r)
                         (repositories s)\<rparr>))"

definition getDeveloper :: "github \<Rightarrow> string \<Rightarrow> world \<Rightarrow> (js_error + developer option) \<times> world" where
  "getDeveloper gh uname s =
     (if storageFails gh (storageCalls s) then (Inl storageError, stored s)
      else (Inr (find (\<lambda>d. username d = uname) (developers s)), stored s))"

text \<open>
  \<open>upsertDeveloper\<close>: the row of that username is updated, or a new row gets the next
  auto-increment id.
\<close>

definition upsertDeveloper ::
  "github \<Rightarrow> string \<Rightarrow> user_info \<Rightarrow> world \<Rightarrow> (js_error + developer) \<times> world"
where
  "upsertDeveloper gh uname info s =
     (if storageFails gh (storageCalls s) then (Inl storageError, stored s)
      else case find (\<lambda>d. username d = uname) (developers s) of
             Some d \<Rightarrow>
               (Inr (d\<lparr>profile := info\<rparr>),
                (stored s)\<lparr>developers :=
                   map (\<lambda>x. if username x = uname then x\<lparr>profile := info\<rparr> else x)
                     (developers s)\<rparr>)
           | None \<Rightarrow>
               (let d = \<lparr>developerId = Suc (length (developers s)), username = uname,
                         profile = info\<rparr>
                in (Inr d, (stored s)\<lparr>developers := developers s @ [d]\<rparr>)))"

definition bulkCreateActivities ::
  "github \<Rightarrow> activity list \<Rightarrow> world \<Rightarrow> (js_error + unit) \<times> world"
where
  "bulkCreateActivities gh activitiesData s =
     (if storageFails gh (storageCalls s) then (Inl storageError, stored s)
      else (Inr (), (stored s)\<lparr>activities :=
                       insertIgnore (\<lambda>a. (actRepositoryId a, actDeveloperId a, date a))
                         (activities s) activitiesData\<rparr>))"

section \<open>Collecting developer activity (DeveloperActivityWorker)\<close>

text \<open>
  The reference time computed at the start of \<open>processBatch\<close> from \<open>Date.now()\<close>
  (milliseconds): 26 weeks before the current second.
\<close>

definition referenceTimeAt :: "int \<Rightarrow> int" where
  "referenceTimeAt nowMs =
     (let currentTime = nowMs div 1000;
          week = 60 * 60 * 24 * 7
      in currentTime - week * 26)"

text \<open>The \<open>filter\<close> of \<open>processContributor\<close> on \<open>contribution.weeks\<close>.\<close>

definition recentActivities :: "int \<Rightarrow> week_entry list \<Rightarrow> week_entry list" where
  "recentActivities referenceTime ws =
     filter (\<lambda>item. week_c item \<noteq> 0 \<and> week_w item > referenceTime) ws"

definition activityRow :: "nat \<Rightarrow> nat \<Rightarrow> week_entry \<Rightarrow> activity" where
  "activityRow devId repositoryId item =
     \<lparr>commits = week_c item, additions = week_a item, deletions = week_d item,
      date = week_w item, actDeveloperId = devId, actRepositoryId = repositoryId\<rparr>"

text \<open>
  The lookup of the developer in \<open>processContributor\<close>: the stored row, or a row created from
  the fetched profile. \<open>None\<close> stands for each of the early returns (user not found, fetch or
  upsert failed).
\<close>

definition resolveDeveloper ::
  "github \<Rightarrow> string \<Rightarrow> developer option \<Rightarrow> world \<Rightarrow> developer option \<times> world"
where
  "resolveDeveloper gh uname found s =
     (case found of
        Some d \<Rightarrow> (Some d, s)
      | None \<Rightarrow>
          (case getUser gh uname s of
             (Inl e, s1) \<Rightarrow> (None, s1)
           | (Inr None, s1) \<Rightarrow> (None, s1)
           | (Inr (Some userInfo), s1) \<Rightarrow>
               (case upsertDeveloper gh uname userInfo s1 of
                  (Inl e, s2) \<Rightarrow> (None, s2)
                | (Inr d, s2) \<Rightarrow> (Some d, s2))))"

definition processContributor ::
  "github \<Rightarrow> contribution \<Rightarrow> nat \<Rightarrow> int \<Rightarrow> world \<Rightarrow> (js_error + unit) \<times> world"
where
  "processContributor gh contrib repositoryId referenceTime s =
     (case author contrib of
        None \<Rightarrow> (Inr (), s)
      | Some login \<Rightarrow>
          if login = [] then (Inr (), s)
          else
            (let acts = recentActivities referenceTime (weeks contrib)
             in if length acts = 0 then (Inr (), s)
                else
                  (case getDeveloper gh login s of
                     (Inl e, s1) \<Rightarrow> (Inl e, s1)
                   | (Inr found, s1) \<Rightarrow>
                       (case resolveDeveloper gh login found s1 of
                          (None, s2) \<Rightarrow> (Inr (), s2)
                        | (Some d, s2) \<Rightarrow>
                            (let activitiesData =
                                   map (activityRow (developerId d) repositoryId) acts
                             in if length activitiesData > 0
                                then (Inr (), snd (bulkCreateActivities gh activitiesData s2))
                                else (Inr (), s2))))))"

text \<open>The loop over the contributors: a failure of one is logged and the loop goes on.\<close>

fun processContributors :: "github \<Rightarrow> contribution list \<Rightarrow> nat \<Rightarrow> int \<Rightarrow> world \<Rightarrow> world" where
  "processContributors gh [] repositoryId referenceTime s = s"
| "processContributors gh (contrib # later) repositoryId referenceTime s =
     processContributors gh later repositoryId referenceTime
       (snd (processContributor gh contrib repositoryId referenceTime s))"

text \<open>
  A repository handed to the worker: the row's primary key \<open>id\<close> and the row.
  \<open>processRepository\<close> rethrows what \<open>getContributorsActivity\<close> throws.
\<close>

definition processRepository ::
  "github \<Rightarrow> nat \<times> repo_data \<Rightarrow> int \<Rightarrow> world \<Rightarrow> ((js_error + unit) \<times> world) option"
where
  "processRepository gh repo referenceTime s =
     (case getContributorsActivity gh (owner (snd repo)) (name (snd repo)) s of
        None \<Rightarrow> None
      | Some (Inl error, s1) \<Rightarrow> Some (Inl error, s1)
      | Some (Inr contributorsData, s1) \<Rightarrow>
          (case contributorsData of
             None \<Rightarrow> Some (Inr (), s1)
           | Some contribs \<Rightarrow>
               if length contribs = 0 then Some (Inr (), s1)
               else Some (Inr (), processContributors gh contribs (fst repo) referenceTime s1)))"

text \<open>
  The loop of \<open>processBatch\<close> with its two counters. Only a failure of
  \<open>markRepositoryClosedSource\<close> leaves the loop with an error.
\<close>

fun batchLoop ::
  "github \<Rightarrow> int \<Rightarrow> (nat \<times> repo_data) list \<Rightarrow> nat \<Rightarrow> nat \<Rightarrow> world \<Rightarrow>
   ((js_error + nat \<times> nat) \<times> world) option"
where
  "batchLoop gh referenceTime [] processedCount errorCount s =
     Some (Inr (processedCount, errorCount), s)"
| "batchLoop gh referenceTime (repo # later) processedCount errorCount s =
     (case processRepository gh repo referenceTime s of
        None \<Rightarrow> None
      | Some (Inr u, s1) \<Rightarrow> batchLoop gh referenceTime later (Suc processedCount) errorCount s1
      | Some (Inl error, s1) \<Rightarrow>
          if status error = Some 404
          then (case markRepositoryClosedSource gh (repoId (snd repo)) s1 of
                  (Inl e, s2) \<Rightarrow> Some (Inl e, s2)
                | (Inr u, s2) \<Rightarrow>
                    batchLoop gh referenceTime later processedCount (Suc errorCount) s2)
          else batchLoop gh referenceTime later processedCount (Suc errorCount) s1)"

text \<open>\<open>processBatch(repos)\<close>, with the value of \<open>Date.now()\<close> at its start.\<close>

definition processBatch ::
  "github \<Rightarrow> int \<Rightarrow> (nat \<times> repo_data) list \<Rightarrow> world \<Rightarrow>
   ((js_error + nat \<times> nat) \<times> world) option"
where
  "processBatch gh nowMs repos s = batchLoop gh (referenceTimeAt nowMs) repos 0 0 s"

section \<open>Discovering repositories (RepositoryDiscoveryWorker)\<close>

text \<open>An entry of \<open>config.solanaSearchQueries\<close>; an absent field is \<open>None\<close>.\<close>

record search_query =
  filename :: "string option"
  extension :: "string option"
  keyword :: "string option"
  queryType :: "string option"







definition repoKey :: "repository_ref \<Rightarrow> string" where
  "repoKey r = owner_login r @ ''/'' @ ref_name r"

definition makeRepoData :: "repository_ref \<Rightarrow> repo_details \<Rightarrow> string \<Rightarrow> repo_data" where
  "makeRepoData r details eco =
     \<lparr>repoId = numberToString (ref_id r), name = ref_name r, url = html_url r,
      owner = owner_login r, started = created_at details div 1000, ecosystem = eco,
      isClosedSource = False, issuesAndPrs = open_issues_count details,
      stars = stargazers_count details\<rparr>"



definition saveRepoTypes :: "github \<Rightarrow> (string \<times> string) list \<Rightarrow> world \<Rightarrow> world" where
  "saveRepoTypes gh repoTypesData s =
     (if length repoTypesData > 0 then snd (bulkCreateRepoTypes gh repoTypesData s) else s)"












text \<open>The configuration a discovery run reads, and the body of the \<open>try\<close> in \<open>run\<close>.\<close>

record discovery_config =
  cfgEcosystem :: string
  solanaSearchQueries :: "search_query list"
  repositorySearchKeywords :: "string list"



definition rowKey :: "repo_data \<Rightarrow> string" where
  "rowKey r = owner r @ ''/'' @ name r"

section \<open>The running flag of the two workers\<close>

text \<open>
  Each worker object has one \<open>isRunning\<close> field; \<open>run\<close> (and \<open>runBackfill\<close> of the activity
  worker, on the same field) tests and sets it before its first \<open>await\<close>, and clears it in
  \<open>finally\<close>. Calls interleave only at an \<open>await\<close>, so an execution of a worker is a sequence
  of two kinds of events: a call of \<open>run\<close> or \<open>runBackfill\<close>, which runs up to the first
  \<open>await\<close> inside the \<open>try\<close>, and the end of a body that was started, by completion or by
  a thrown error. \<open>inFlight\<close> counts the bodies started and not yet ended, \<open>started\<close> all
  bodies ever started.
\<close>

datatype entry_point = Run | RunBackfill

datatype outcome = Completed | Failed js_error

datatype event = Call entry_point | BodyEnds outcome

record worker =
  isRunning :: bool
  inFlight :: nat
  started :: nat
  errorsLogged :: "js_error list"

definition newWorker :: worker where
  "newWorker = \<lparr>isRunning = False, inFlight = 0, started = 0, errorsLogged = []\<rparr>"

definition callRun :: "worker \<Rightarrow> worker" where
  "callRun w =
     (if isRunning w then w
      else w\<lparr>isRunning := True, inFlight := Suc (inFlight w), started := Suc (started w)\<rparr>)"

definition bodyEnds :: "outcome \<Rightarrow> worker \<Rightarrow> worker" where
  "bodyEnds result w =
     (let w1 = (case result of
                  Completed \<Rightarrow> w
                | Failed error \<Rightarrow> w\<lparr>errorsLogged := errorsLogged w @ [error]\<rparr>)
      in w1\<lparr>isRunning := False, inFlight := inFlight w1 - 1\<rparr>)"

text \<open>An event happens only when it can: a body ends only if one is in flight.\<close>

fun step :: "event \<Rightarrow> worker \<Rightarrow> worker" where
  "step (Call entry) w = callRun w"
| "step (BodyEnds result) w = (if inFlight w = 0 then w else bodyEnds result w)"

fun runEvents :: "event list \<Rightarrow> worker \<Rightarrow> worker" where
  "runEvents [] w = w"
| "runEvents (e # es) w = runEvents es (step e w)"

section \<open>Predicates and sample inputs used in the statements\<close>


subsection \<open>Sample inputs\<close>

text \<open>
  A pool whose tokens all carry a snapshot used 10 seconds before a clock that stands at
  1000000 ms, and an upstream whose rate limit probe always answers.
\<close>

definition sampleResources :: "int \<Rightarrow> int \<Rightarrow> resources" where
  "sampleResources rem resetAt =
     [''core'' \<mapsto> \<lparr>remaining = rem, reset = resetAt, limit = 5000\<rparr>,
      ''search'' \<mapsto> \<lparr>remaining = 30, reset = 0, limit = 30\<rparr>,
      ''code_search'' \<mapsto> \<lparr>remaining = 10, reset = 0, limit = 10\<rparr>]"

definition sampleToken :: "string \<Rightarrow> bool \<Rightarrow> int \<Rightarrow> int \<Rightarrow> token_entry" where
  "sampleToken secret healthy rem resetAt =
     \<lparr>token = secret, rateLimits = sampleResources rem resetAt, lastUsed = 990000,
      isHealthy = healthy, consecutiveErrors = (if healthy then 0 else 3)\<rparr>"

definition samplePool :: "token_entry list \<Rightarrow> scheduler" where
  "samplePool ts =
     \<lparr>tokens = ts, currentIndex = 0, rotationLock = False, clockReads = 0, probes = [],
      calls = 0, sleeps = [], caught = []\<rparr>"

definition frozenClock :: upstream where
  "frozenClock =
     \<lparr>dateNow = (\<lambda>k. 1000000), rateLimitReply = (\<lambda>k i. Some (sampleResources 4999 2000))\<rparr>"

text \<open>
  Three pools of two tokens A and B: A exhausted until 5 seconds from now and B with 10
  requests left; A unhealthy and B exhausted until second 2000; both with 10 requests left.
  Before the third, a pool of one token last used at time 0, with 5000 requests left in its
  snapshot and two failed probes behind it, and an upstream whose probes all fail.
\<close>

definition exhaustedThenFresh :: scheduler where
  "exhaustedThenFresh = samplePool [sampleToken ''A'' True 0 1005, sampleToken ''B'' True 10 0]"

definition unhealthyThenExhausted :: scheduler where
  "unhealthyThenExhausted =
     samplePool [sampleToken ''A'' False 5000 0, sampleToken ''B'' True 0 2000]"

definition staleFlaky :: scheduler where
  "staleFlaky =
     samplePool [(sampleToken ''A'' True 5000 0)\<lparr>lastUsed := 0, consecutiveErrors := 2\<rparr>]"

definition deadProbes :: upstream where
  "deadProbes = \<lparr>dateNow = (\<lambda>k. 1000000), rateLimitReply = (\<lambda>k i. None)\<rparr>"

definition bothFresh :: scheduler where
  "bothFresh = samplePool [sampleToken ''A'' True 10 0, sampleToken ''B'' True 10 0]"

text \<open>Two HTTP failures, and a request function that always fails with a given one.\<close>

definition notFound :: js_error where
  "notFound = \<lparr>status = Some 404, message = ''Not Found''\<rparr>"

definition unavailable :: js_error where
  "unavailable = \<lparr>status = Some 503, message = ''Service Unavailable''\<rparr>"

definition alwaysFails :: "js_error \<Rightarrow> nat \<Rightarrow> nat \<Rightarrow> js_error + unit" where
  "alwaysFails e k client = Inl e"

definition primaryLimit :: js_error where
  "primaryLimit = \<lparr>status = Some 403, message = ''API rate limit exceeded''\<rparr>"

definition abuseLimit :: js_error where
  "abuseLimit =
     \<lparr>status = Some 403, message = ''You have exceeded a secondary rate limit''\<rparr>"

text \<open>A request function whose k-th invocation throws the k-th error of a list, and
  returns once the list is used up.\<close>

definition failsInTurn :: "js_error list \<Rightarrow> nat \<Rightarrow> nat \<Rightarrow> js_error + unit" where
  "failsInTurn errors k client = (if k < length errors then Inl (errors ! k) else Inr ())"

text \<open>An upstream for the workers, given by its answers, an empty store, and one repository.\<close>

definition sampleGithub ::
  "(nat \<Rightarrow> js_error + stats_response) \<Rightarrow> (nat \<Rightarrow> js_error + repo_details) \<Rightarrow>
   (nat \<Rightarrow> js_error + repo_item list) \<Rightarrow> github"
where
  "sampleGithub stats details found =
     \<lparr>statsReply = (\<lambda>k ownerName repoName. stats k),
      userReply = (\<lambda>k uname. Inl notFound),
      repoReply = (\<lambda>k ownerName repoName. details k),
      codeSearchReply = (\<lambda>k q page. Inl unavailable),
      repoSearchReply = (\<lambda>k q page. found k),
      storageFails = (\<lambda>k. False)\<rparr>"

definition quietGithub :: github where
  "quietGithub = sampleGithub (\<lambda>k. Inl notFound) (\<lambda>k. Inl notFound) (\<lambda>k. Inr [])"

definition emptyWorld :: world where
  "emptyWorld =
     \<lparr>executions = 0, pauses = [], storageCalls = 0, repositories = [], repoTypes = [],
      developers = [], activities = [], processedRepos = {}\<rparr>"

definition sampleRef :: repository_ref where
  "sampleRef = \<lparr>ref_id = 42, ref_name = ''tool'', owner_login = ''acme'',
                html_url = ''https://github.com/acme/tool''\<rparr>"

definition sampleDetails :: repo_details where
  "sampleDetails = \<lparr>created_at = 1600000000000, open_issues_count = 3, stargazers_count = 7\<rparr>"

definition sampleRow :: repo_data where
  "sampleRow = makeRepoData sampleRef sampleDetails ''solana''"


definition computing :: stats_response where
  "computing = \<lparr>http_status = 202, stats_data = None\<rparr>"

definition computed :: stats_response where
  "computed = \<lparr>http_status = 200, stats_data = Some []\<rparr>"

text \<open>
  Upstreams of the workers: one whose first repository lookup answers 404 and whose later
  ones succeed; one whose statistics are ready at the third request; one whose statistics are
  never ready; one whose repository search returns the sample repository twice.
\<close>

definition flakyLookup :: github where
  "flakyLookup =
     sampleGithub (\<lambda>k. Inl notFound) (\<lambda>k. if k = 0 then Inl notFound else Inr sampleDetails)
       (\<lambda>k. Inr [])"

definition slowStats :: github where
  "slowStats =
     sampleGithub (\<lambda>k. if k < 2 then Inr computing else Inr computed) (\<lambda>k. Inl notFound)
       (\<lambda>k. Inr [])"

definition stuckStats :: github where
  "stuckStats = sampleGithub (\<lambda>k. Inr computing) (\<lambda>k. Inl notFound) (\<lambda>k. Inr [])"

definition sampleRepoItem :: repo_item where
  "sampleRepoItem = \<lparr>item_ref = sampleRef, item_details = sampleDetails\<rparr>"

definition trendingTwice :: github where
  "trendingTwice =
     sampleGithub (\<lambda>k. Inl notFound) (\<lambda>k. Inr sampleDetails)
       (\<lambda>k. Inr [sampleRepoItem, sampleRepoItem])"

definition trendingOnly :: discovery_config where
  "trendingOnly =
     \<lparr>cfgEcosystem = ''solana'', solanaSearchQueries = [], repositorySearchKeywords = []\<rparr>"

text \<open>The store after the sample repository was persisted by one search and two storage calls.\<close>

definition worldWithSample :: world where
  "worldWithSample =
     emptyWorld\<lparr>executions := 1, storageCalls := 2, repositories := [sampleRow],
                processedRepos := {''acme/tool''}\<rparr>"

definition weekOf :: "int \<Rightarrow> int \<Rightarrow> week_entry" where
  "weekOf start commitCount = \<lparr>week_w = start, week_a = 10, week_d = 2, week_c = commitCount\<rparr>"

definition sampleWeeks :: "week_entry list" where
  "sampleWeeks =
     [weekOf 1700000000 3, weekOf 1700000000 0, weekOf 1690000000 1, weekOf 1690000001 1]"

definition sampleDeveloper :: developer where
  "sampleDeveloper =
     \<lparr>developerId = 1, username = ''alice'',
      profile = \<lparr>user_name = ''Alice'', user_html_url = [], avatar_url = [],
                 user_location = [], twitter_username = []\<rparr>\<rparr>"

section \<open>Evaluating the model on the sample inputs\<close>

text \<open>The definitions to unfold when a function of the model is run on a sample input.\<close>

lemmas pool_eval = getBestToken_def scanOrder_def samplePool_def sampleToken_def frozenClock_def
      exhaustedThenFresh_def unhealthyThenExhausted_def bothFresh_def staleFlaky_def
      deadProbes_def probesSent_def
      sampleResources_def examineToken_def readClock_def selectToken_def Let_def upt_rec
      waitForReset_def sleep_def updateRateLimits_def takesWaitPath_def

lemmas error_eval = isClientError_def isServerError_def isRateLimitError_def
  isSecondaryRateLimitError_def notFound_def unavailable_def alwaysFails_def
  primaryLimit_def abuseLimit_def failsInTurn_def catchError_def

lemmas world_eval = sampleGithub_def emptyWorld_def notFound_def unavailable_def
  executed_def pause_def stored_def computing_def computed_def quietGithub_def flakyLookup_def
  slowStats_def stuckStats_def trendingTwice_def trendingOnly_def sampleRepoItem_def
  worldWithSample_def



section \<open>Properties of the size ranges\<close>

lemma coversSize_step:
  "(sz \<le> hi \<Longrightarrow> lo \<le> sz) \<Longrightarrow> (hi < sz \<Longrightarrow> coversSize bs sz) \<Longrightarrow> coversSize ((lo, hi) # bs) sz"
  by (cases "sz \<le> hi") (auto simp: coversSize_def)

lemma coversSize_rendered:
  "coversSize bs sz \<Longrightarrow> \<exists>lo hi. sizeRange lo hi \<in> set (map (\<lambda>(lo, hi). sizeRange lo hi) bs) \<and> lo \<le> sz \<and> sz \<le> hi"
  by (induction bs) (auto simp: coversSize_def)

lemma sizeBounds_cover:
  "sz \<le> 15000 \<Longrightarrow>
   coversSize [(0, 199), (150, 349), (300, 499), (450, 649), (600, 799), (750, 949), (900, 1099),
        (1050, 1549), (1300, 1799), (1550, 2049), (1800, 2299), (2050, 2549), (2300, 2799),
        (2550, 3049), (2800, 3299),
        (3050, 4049), (3550, 4549), (4050, 5049), (4550, 5549),
        (5050, 7049), (6050, 8049), (7050, 9049), (8050, 10049), (9050, 11049),
        (10050, 15049)] sz"
  apply (rule coversSize_step, arith)+
  apply arith
  done

lemma generateSizeRanges_bounds:
  "generateSizeRanges = map (\<lambda>(lo, hi). sizeRange lo hi)
       [(0, 199), (150, 349), (300, 499), (450, 649), (600, 799), (750, 949), (900, 1099),
        (1050, 1549), (1300, 1799), (1550, 2049), (1800, 2299), (2050, 2549), (2300, 2799),
        (2550, 3049), (2800, 3299),
        (3050, 4049), (3550, 4549), (4050, 5049), (4550, 5549),
        (5050, 7049), (6050, 8049), (7050, 9049), (8050, 10049), (9050, 11049),
        (10050, 15049)]"
  by (simp add: generateSizeRanges_def sizeRange_def digitChar_def)

lemma generateSizeRanges_value:
  "generateSizeRanges =
     [''0..199'', ''150..349'', ''300..499'', ''450..649'', ''600..799'', ''750..949'',
      ''900..1099'',
      ''1050..1549'', ''1300..1799'', ''1550..2049'', ''1800..2299'', ''2050..2549'',
      ''2300..2799'', ''2550..3049'', ''2800..3299'',
      ''3050..4049'', ''3550..4549'', ''4050..5049'', ''4550..5549'',
      ''5050..7049'', ''6050..8049'', ''7050..9049'', ''8050..10049'', ''9050..11049'',
      ''10050..15049'']"
  by (simp add: generateSizeRanges_def sizeRange_def digitChar_def)

lemma sizeBand1_value:
  "sizeBand1 0 [] =
     (1050, [''0..199'', ''150..349'', ''300..499'', ''450..649'', ''600..799'', ''750..949'',
             ''900..1099''])"
  by (simp add: sizeRange_def digitChar_def)

text \<open>
  Claim C2. \<open>generateSizeRanges\<close> takes no input and reads no state, so it is a constant: its
  value is the list of 25 ranges below, whatever the call. The first loop (width 200,
  stride 150) pushes exactly the seven ranges from \<open>0..199\<close> to \<open>900..1099\<close> and stops at
  start 1050, the first start not below 1000. Every size from 0 to 15000 lies in one of the
  generated ranges.
\<close>

theorem generateSizeRanges_deterministic_cover:
  "generateSizeRanges =
     [''0..199'', ''150..349'', ''300..499'', ''450..649'', ''600..799'', ''750..949'',
      ''900..1099'',
      ''1050..1549'', ''1300..1799'', ''1550..2049'', ''1800..2299'', ''2050..2549'',
      ''2300..2799'', ''2550..3049'', ''2800..3299'',
      ''3050..4049'', ''3550..4549'', ''4050..5049'', ''4550..5549'',
      ''5050..7049'', ''6050..8049'', ''7050..9049'', ''8050..10049'', ''9050..11049'',
      ''10050..15049'']
   \<and> sizeBand1 0 [] =
     (1050, [''0..199'', ''150..349'', ''300..499'', ''450..649'', ''600..799'', ''750..949'',
             ''900..1099''])
   \<and> (\<forall>sz \<le> 15000. \<exists>lo hi. sizeRange lo hi \<in> set generateSizeRanges \<and> lo \<le> sz \<and> sz \<le> hi)"
proof (intro conjI allI impI)
  show "generateSizeRanges =
     [''0..199'', ''150..349'', ''300..499'', ''450..649'', ''600..799'', ''750..949'',
      ''900..1099'',
      ''1050..1549'', ''1300..1799'', ''1550..2049'', ''1800..2299'', ''2050..2549'',
      ''2300..2799'', ''2550..3049'', ''2800..3299'',
      ''3050..4049'', ''3550..4549'', ''4050..5049'', ''4550..5549'',
      ''5050..7049'', ''6050..8049'', ''7050..9049'', ''8050..10049'', ''9050..11049'',
      ''10050..15049'']"
    by (rule generateSizeRanges_value)
  show "sizeBand1 0 [] =
     (1050, [''0..199'', ''150..349'', ''300..499'', ''450..649'', ''600..799'', ''750..949'',
             ''900..1099''])"
    by (rule sizeBand1_value)
next
  fix sz :: nat
  assume "sz \<le> 15000"
  then show "\<exists>lo hi. sizeRange lo hi \<in> set generateSizeRanges \<and> lo \<le> sz \<and> sz \<le> hi"
    unfolding generateSizeRanges_bounds
    by (intro coversSize_rendered sizeBounds_cover)
qed

theorem generateSizeRanges_cover_witness:
  "(15000::nat) \<le> 15000 \<and>
   (\<exists>lo hi. sizeRange lo hi \<in> set generateSizeRanges \<and> lo \<le> (15000::nat) \<and> (15000::nat) \<le> hi)"
  using generateSizeRanges_deterministic_cover by simp

section \<open>Properties of the activity filter\<close>

lemma referenceTimeAt_value: "referenceTimeAt nowMs = nowMs div 1000 - 15724800"
  by (simp add: referenceTimeAt_def)

lemma recentActivities_member:
  "item \<in> set (recentActivities referenceTime ws) \<longleftrightarrow>
     item \<in> set ws \<and> week_c item \<noteq> 0 \<and> referenceTime < week_w item"
  by (auto simp: recentActivities_def)

lemma recentActivities_count:
  "count_list (recentActivities referenceTime ws) item =
     (if week_c item \<noteq> 0 \<and> referenceTime < week_w item then count_list ws item else 0)"
  by (induction ws) (auto simp: recentActivities_def)

lemma processContributor_known_developer:
  assumes "author contrib = Some login" and "login \<noteq> []"
    and "\<not> storageFails gh (storageCalls s)" and "\<not> storageFails gh (Suc (storageCalls s))"
    and "find (\<lambda>d. username d = login) (developers s) = Some dev"
  shows "activities (snd (processContributor gh contrib repositoryId referenceTime s)) =
         insertIgnore (\<lambda>a. (actRepositoryId a, actDeveloperId a, date a)) (activities s)
           (map (activityRow (developerId dev) repositoryId)
              (recentActivities referenceTime (weeks contrib)))"
  using assms
  by (simp add: processContributor_def getDeveloper_def resolveDeveloper_def
      bulkCreateActivities_def stored_def Let_def)

text \<open>
  Claim C5. The reference time is the current second minus 26 weeks of seconds. For every
  weeks list and every reference time, an entry is kept by the filter exactly when it is in
  the list, its commit count is not 0 and its week timestamp is strictly greater than the
  reference time, and it is kept as often as it occurs; an entry with no commits, or with a
  timestamp equal to or before the reference time, is not kept. When the contributor's
  developer row is found in the store, the rows handed to the bulk insert are exactly the
  kept entries.
\<close>

theorem activity_filter_exact:
  "referenceTimeAt nowMs = nowMs div 1000 - 26 * 7 * 86400
   \<and> (item \<in> set (recentActivities referenceTime ws) \<longleftrightarrow>
        item \<in> set ws \<and> week_c item \<noteq> 0 \<and> referenceTime < week_w item)
   \<and> count_list (recentActivities referenceTime ws) item =
        (if week_c item \<noteq> 0 \<and> referenceTime < week_w item then count_list ws item else 0)
   \<and> (week_c item = 0 \<or> week_w item \<le> referenceTime \<longrightarrow>
        item \<notin> set (recentActivities referenceTime ws))
   \<and> (author contrib = Some login \<and> login \<noteq> [] \<and> \<not> storageFails gh (storageCalls s) \<and>
      \<not> storageFails gh (Suc (storageCalls s)) \<and>
      find (\<lambda>d. username d = login) (developers s) = Some dev \<longrightarrow>
        activities (snd (processContributor gh contrib repositoryId referenceTime s)) =
          insertIgnore (\<lambda>a. (actRepositoryId a, actDeveloperId a, date a)) (activities s)
            (map (activityRow (developerId dev) repositoryId)
               (recentActivities referenceTime (weeks contrib))))"
  using processContributor_known_developer [of contrib login gh s dev repositoryId referenceTime]
  by (simp add: referenceTimeAt_value recentActivities_member recentActivities_count)

text \<open>Four weeks against the reference time 1690000000: the idle week and the week at the
  reference time itself are dropped.\<close>

theorem activity_filter_witness:
  "recentActivities 1690000000 sampleWeeks = [weekOf 1700000000 3, weekOf 1690000001 1]
   \<and> weekOf 1690000000 1 \<notin> set (recentActivities 1690000000 sampleWeeks)
   \<and> activities (snd (processContributor quietGithub
        \<lparr>author = Some ''alice'', weeks = sampleWeeks\<rparr> 7 1690000000
        (emptyWorld\<lparr>developers := [sampleDeveloper]\<rparr>))) =
       [\<lparr>commits = 3, additions = 10, deletions = 2, date = 1700000000,
         actDeveloperId = 1, actRepositoryId = 7\<rparr>,
        \<lparr>commits = 1, additions = 10, deletions = 2, date = 1690000001,
         actDeveloperId = 1, actRepositoryId = 7\<rparr>]"
proof -
  let ?contrib = "\<lparr>author = Some ''alice'', weeks = sampleWeeks\<rparr>"
  let ?s = "emptyWorld\<lparr>developers := [sampleDeveloper]\<rparr>"
  have kept: "recentActivities 1690000000 sampleWeeks =
      [weekOf 1700000000 3, weekOf 1690000001 1]"
    by (simp add: recentActivities_def sampleWeeks_def weekOf_def)
  have edge: "week_c (weekOf 1690000000 1) = 0 \<or> week_w (weekOf 1690000000 1) \<le> 1690000000"
    by (simp add: weekOf_def)
  have known: "author ?contrib = Some ''alice'' \<and> ''alice'' \<noteq> []
      \<and> \<not> storageFails quietGithub (storageCalls ?s)
      \<and> \<not> storageFails quietGithub (Suc (storageCalls ?s))
      \<and> find (\<lambda>d. username d = ''alice'') (developers ?s) = Some sampleDeveloper"
    by (simp add: world_eval sampleDeveloper_def)
  note t = activity_filter_exact [of 0 "weekOf 1690000000 1" 1690000000 sampleWeeks ?contrib
      "''alice''" quietGithub ?s sampleDeveloper 7]
  from t edge have a: "weekOf 1690000000 1 \<notin> set (recentActivities 1690000000 sampleWeeks)"
    by blast
  from t known have "activities (snd (processContributor quietGithub ?contrib 7 1690000000 ?s)) =
      insertIgnore (\<lambda>a. (actRepositoryId a, actDeveloperId a, date a)) (activities ?s)
        (map (activityRow (developerId sampleDeveloper) 7)
           (recentActivities 1690000000 (weeks ?contrib)))"
    by blast
  moreover have "weeks ?contrib = sampleWeeks" by simp
  ultimately have "activities (snd (processContributor quietGithub ?contrib 7 1690000000 ?s)) =
      insertIgnore (\<lambda>a. (actRepositoryId a, actDeveloperId a, date a)) (activities ?s)
        (map (activityRow (developerId sampleDeveloper) 7)
           [weekOf 1700000000 3, weekOf 1690000001 1])"
    by (simp only: kept)
  then have b: "activities (snd (processContributor quietGithub ?contrib 7 1690000000 ?s)) =
       [\<lparr>commits = 3, additions = 10, deletions = 2, date = 1700000000,
         actDeveloperId = 1, actRepositoryId = 7\<rparr>,
        \<lparr>commits = 1, additions = 10, deletions = 2, date = 1690000001,
         actDeveloperId = 1, actRepositoryId = 7\<rparr>]"
    by (simp add: activityRow_def weekOf_def sampleDeveloper_def emptyWorld_def)
  from kept a b show ?thesis by blast
qed

section \<open>Properties of the constructors\<close>

text \<open>
  Claim C10. \<open>new TokenManager\<close> throws on a missing and on an empty token list, and
  \<open>new GitHubService\<close> throws on an empty configured list; both throw in exactly these
  cases, so the failure happens at construction and no object exists to take a request.
\<close>

theorem constructors_reject_empty:
  "newTokenManager None = Thrown (plainError ''No GitHub tokens provided'')
   \<and> newTokenManager (Some []) = Thrown (plainError ''No GitHub tokens provided'')
   \<and> newGitHubService [] = Thrown (plainError ''No GitHub tokens configured'')
   \<and> ((\<exists>e. newTokenManager arg = Thrown e) \<longleftrightarrow> arg = None \<or> arg = Some [])
   \<and> ((\<exists>e. newGitHubService configTokens = Thrown e) \<longleftrightarrow> configTokens = [])"
  by (auto simp: newTokenManager_def newGitHubService_def split: option.splits)

section \<open>Properties of the running flag\<close>

lemma step_invariant:
  "inFlight w = (if isRunning w then 1 else 0) \<Longrightarrow>
   inFlight (step e w) = (if isRunning (step e w) then 1 else 0)"
  by (cases e) (auto simp: callRun_def bodyEnds_def Let_def split: outcome.splits)

lemma runEvents_invariant:
  "inFlight w = (if isRunning w then 1 else 0) \<Longrightarrow>
   inFlight (runEvents es w) = (if isRunning (runEvents es w) then 1 else 0)"
proof (induction es arbitrary: w)
  case Nil
  then show ?case by simp
next
  case (Cons e es)
  from Cons.prems have "inFlight (step e w) = (if isRunning (step e w) then 1 else 0)"
    by (rule step_invariant)
  then show ?case using Cons.IH by simp
qed

lemma reachable_invariant:
  "inFlight (runEvents es newWorker) = (if isRunning (runEvents es newWorker) then 1 else 0)"
  by (rule runEvents_invariant) (simp add: newWorker_def)

text \<open>
  Claim C8. In every state a worker can reach, at most one body is in flight, and one is in
  flight exactly when the flag is set. A call of \<open>run\<close> or \<open>runBackfill\<close> while the flag is
  set changes nothing. When the body ends, by completion or by a thrown error, the flag is
  cleared, and the next call starts a new body.
\<close>

theorem workers_never_overlap:
  assumes "w = runEvents es newWorker"
  shows "inFlight w \<le> 1
    \<and> (isRunning w \<longleftrightarrow> inFlight w = 1)
    \<and> (isRunning w \<longrightarrow> step (Call entry) w = w)
    \<and> (isRunning w \<longrightarrow>
          \<not> isRunning (step (BodyEnds result) w)
          \<and> inFlight (step (BodyEnds result) w) = 0
          \<and> started (step (BodyEnds result) w) = started w
          \<and> isRunning (step (Call entry) (step (BodyEnds result) w))
          \<and> started (step (Call entry) (step (BodyEnds result) w)) = Suc (started w))
    \<and> (\<not> isRunning w \<longrightarrow>
          isRunning (step (Call entry) w) \<and> inFlight (step (Call entry) w) = 1
          \<and> started (step (Call entry) w) = Suc (started w))"
proof -
  have inv: "inFlight w = (if isRunning w then 1 else 0)"
    unfolding assms by (rule reachable_invariant)
  show ?thesis
    using inv
    by (cases result) (auto simp: callRun_def bodyEnds_def Let_def)
qed

text \<open>Three calls in a row start one body; after it fails, a call of the backfill starts the
  second.\<close>

theorem workers_never_overlap_witness:
  "(let w = runEvents [Call Run, Call RunBackfill, Call Run] newWorker;
        w' = step (BodyEnds (Failed (plainError ''boom''))) w
    in isRunning w \<and> inFlight w = 1 \<and> started w = 1 \<and> step (Call Run) w = w
       \<and> \<not> isRunning w' \<and> inFlight w' = 0
       \<and> isRunning (step (Call RunBackfill) w') \<and> started (step (Call RunBackfill) w') = 2)"
  using workers_never_overlap
    [of "runEvents [Call Run, Call RunBackfill, Call Run] newWorker"
        "[Call Run, Call RunBackfill, Call Run]" Run "Failed (plainError ''boom'')"]
    workers_never_overlap
    [of "runEvents [Call Run, Call RunBackfill, Call Run] newWorker"
        "[Call Run, Call RunBackfill, Call Run]" RunBackfill "Failed (plainError ''boom'')"]
  by (simp add: newWorker_def callRun_def bodyEnds_def Let_def)

section \<open>Properties of the statistics poll\<close>

lemma getContributorsActivity_retry:
  "stillComputing gh ownerName repoName (executions s) \<Longrightarrow>
   getContributorsActivity gh ownerName repoName s =
     getContributorsActivity gh ownerName repoName (pause 2000 (executed s))"
  by (subst getContributorsActivity.simps)
     (auto simp: stillComputing_def split: sum.splits)

lemma getContributorsActivity_answer:
  "\<not> stillComputing gh ownerName repoName (executions s) \<Longrightarrow>
   \<exists>res. getContributorsActivity gh ownerName repoName s = Some (res, executed s)"
  by (subst getContributorsActivity.simps)
     (auto simp: stillComputing_def split: sum.splits)

lemma executions_pause_executed [simp]:
  "executions (pause ms (executed s)) = Suc (executions s)"
  "pauses (pause ms (executed s)) = pauses s @ [ms]"
  "executions (executed s) = Suc (executions s)"
  "pauses (executed s) = pauses s"
  by (simp_all add: pause_def executed_def)

lemma getContributorsActivity_returns_after:
  "(\<forall>k<n. stillComputing gh ownerName repoName (executions s + k)) \<Longrightarrow>
   \<not> stillComputing gh ownerName repoName (executions s + n) \<Longrightarrow>
   \<exists>res s'. getContributorsActivity gh ownerName repoName s = Some (res, s')
      \<and> executions s' = executions s + n + 1 \<and> pauses s' = pauses s @ replicate n 2000"
proof (induction n arbitrary: s)
  case 0
  then have "\<not> stillComputing gh ownerName repoName (executions s)" by simp
  from getContributorsActivity_answer [OF this] show ?case by auto
next
  case (Suc n)
  let ?s1 = "pause 2000 (executed s)"
  from Suc.prems(1) have now: "stillComputing gh ownerName repoName (executions s)"
    by (metis add.right_neutral zero_less_Suc)
  have later: "\<forall>k<n. stillComputing gh ownerName repoName (executions ?s1 + k)"
  proof (intro allI impI)
    fix k assume "k < n"
    then have "Suc k < Suc n" by simp
    with Suc.prems(1) have "stillComputing gh ownerName repoName (executions s + Suc k)" by blast
    then show "stillComputing gh ownerName repoName (executions ?s1 + k)" by simp
  qed
  have stop: "\<not> stillComputing gh ownerName repoName (executions ?s1 + n)"
    using Suc.prems(2) by simp
  from Suc.IH [OF later stop] obtain res s' where
    r: "getContributorsActivity gh ownerName repoName ?s1 = Some (res, s')"
      "executions s' = executions ?s1 + n + 1" "pauses s' = pauses ?s1 @ replicate n 2000"
    by blast
  show ?case
    using r getContributorsActivity_retry [OF now]
    by (simp add: replicate_append_same)
qed

lemma getContributorsActivity_returns_only_if:
  assumes "getContributorsActivity gh ownerName repoName s = Some y"
  shows "\<exists>k \<ge> executions s. \<not> stillComputing gh ownerName repoName k"
proof (rule getContributorsActivity.raw_induct
    [where P = "\<lambda>gh ownerName repoName s y. \<exists>k \<ge> executions s. \<not> stillComputing gh ownerName repoName k",
     OF _ assms], goal_cases)
  case (1 rec gh ownerName repoName s y)
  show ?case
  proof (cases "stillComputing gh ownerName repoName (executions s)")
    case True
    with 1(2) have "rec gh ownerName repoName (pause 2000 (executed s)) = Some y"
      by (auto simp: stillComputing_def split: sum.splits if_splits)
    from 1(1) [OF this] obtain k where
      "k \<ge> Suc (executions s)" "\<not> stillComputing gh ownerName repoName k"
      by auto
    then show ?thesis by (meson Suc_leD)
  next
    case False
    then show ?thesis by blast
  qed
qed

lemma getContributorsActivity_never_returns:
  "getContributorsActivity gh ownerName repoName s = None \<longleftrightarrow>
   (\<forall>k \<ge> executions s. stillComputing gh ownerName repoName k)"
proof
  assume none: "getContributorsActivity gh ownerName repoName s = None"
  show "\<forall>k \<ge> executions s. stillComputing gh ownerName repoName k"
  proof (rule ccontr)
    assume "\<not> (\<forall>k \<ge> executions s. stillComputing gh ownerName repoName k)"
    then obtain k where k: "k \<ge> executions s" "\<not> stillComputing gh ownerName repoName k" by blast
    define P where "P = (\<lambda>n. \<not> stillComputing gh ownerName repoName (executions s + n))"
    have "P (k - executions s)" using k by (simp add: P_def)
    then have "P (LEAST n. P n)" by (rule LeastI)
    moreover have "\<forall>m < (LEAST n. P n). \<not> P m" using not_less_Least by blast
    ultimately have "\<exists>res s'. getContributorsActivity gh ownerName repoName s = Some (res, s')"
      using getContributorsActivity_returns_after [of "LEAST n. P n" gh ownerName repoName s]
      by (auto simp: P_def)
    with none show False by simp
  qed
next
  assume "\<forall>k \<ge> executions s. stillComputing gh ownerName repoName k"
  then show "getContributorsActivity gh ownerName repoName s = None"
    using getContributorsActivity_returns_only_if [of gh ownerName repoName s]
    by (cases "getContributorsActivity gh ownerName repoName s") auto
qed

text \<open>
  Claim C9. When the statistics request is answered with a 202, the call pauses 2000 ms and
  is the same call again, for the same owner and repository. If the first \<open>n\<close> answers are
  202 and the next is not, the call returns after \<open>n + 1\<close> requests and \<open>n\<close> pauses, for
  every \<open>n\<close>: no bound on the attempts. The call never returns exactly when every answer
  from now on is a 202.
\<close>

theorem stats_poll_unbounded:
  "(stillComputing gh ownerName repoName (executions s) \<longrightarrow>
      getContributorsActivity gh ownerName repoName s =
        getContributorsActivity gh ownerName repoName (pause 2000 (executed s)))
   \<and> ((\<forall>k<n. stillComputing gh ownerName repoName (executions s + k)) \<and>
       \<not> stillComputing gh ownerName repoName (executions s + n) \<longrightarrow>
        (\<exists>res s'. getContributorsActivity gh ownerName repoName s = Some (res, s')
           \<and> executions s' = executions s + n + 1 \<and> pauses s' = pauses s @ replicate n 2000))
   \<and> (getContributorsActivity gh ownerName repoName s = None \<longleftrightarrow>
        (\<forall>k \<ge> executions s. stillComputing gh ownerName repoName k))"
  using getContributorsActivity_retry [of gh ownerName repoName s]
    getContributorsActivity_returns_after [of n gh ownerName repoName s]
    getContributorsActivity_never_returns [of gh ownerName repoName s]
  by blast

text \<open>Two 202 answers and then the data: three requests, two pauses. A 202 for ever: no
  return.\<close>

theorem stats_poll_witness:
  "(\<exists>res s'. getContributorsActivity slowStats ''acme'' ''tool'' emptyWorld = Some (res, s')
      \<and> executions s' = 3 \<and> pauses s' = [2000, 2000])
   \<and> getContributorsActivity stuckStats ''acme'' ''tool'' emptyWorld = None"
proof -
  have a: "\<forall>k<2. stillComputing slowStats ''acme'' ''tool'' (executions emptyWorld + k)"
    by (simp add: stillComputing_def world_eval)
  have b: "\<not> stillComputing slowStats ''acme'' ''tool'' (executions emptyWorld + 2)"
    by (simp add: stillComputing_def world_eval)
  have c: "\<forall>k \<ge> executions emptyWorld. stillComputing stuckStats ''acme'' ''tool'' k"
    by (simp add: stillComputing_def world_eval)
  have e: "executions emptyWorld + 2 + 1 = 3"
    and p: "pauses emptyWorld @ replicate 2 2000 = [2000, 2000]"
    by (simp_all add: emptyWorld_def numeral_2_eq_2)
  from stats_poll_unbounded [of slowStats "''acme''" "''tool''" emptyWorld 2] a b
  have "\<exists>res s'. getContributorsActivity slowStats ''acme'' ''tool'' emptyWorld = Some (res, s')
      \<and> executions s' = executions emptyWorld + 2 + 1
      \<and> pauses s' = pauses emptyWorld @ replicate 2 2000"
    by blast
  then have first: "\<exists>res s'. getContributorsActivity slowStats ''acme'' ''tool'' emptyWorld = Some (res, s')
      \<and> executions s' = 3 \<and> pauses s' = [2000, 2000]"
    unfolding e p .
  from stats_poll_unbounded [of stuckStats "''acme''" "''tool''" emptyWorld 0] c
  have second: "getContributorsActivity stuckStats ''acme'' ''tool'' emptyWorld = None"
    by blast
  from first second show ?thesis by blast
qed

section \<open>Properties of the credential pool\<close>

lemma updateRateLimits_length [simp]:
  "length (tokens (updateRateLimits up i s)) = length (tokens s)"
  by (simp add: updateRateLimits_def Let_def split: option.splits)

lemma updateRateLimits_other:
  "j \<noteq> i \<Longrightarrow> tokens (updateRateLimits up i s) ! j = tokens s ! j"
  by (simp add: updateRateLimits_def Let_def split: option.splits)

lemma updateRateLimits_lastUsed [simp]:
  "lastUsed (tokens (updateRateLimits up i s) ! j) = lastUsed (tokens s ! j)"
proof (cases "j = i \<and> i < length (tokens s)")
  case True
  then show ?thesis by (simp add: updateRateLimits_def Let_def split: option.splits)
next
  case False
  then show ?thesis
    by (cases "j = i")
       (simp_all add: updateRateLimits_def Let_def list_update_beyond split: option.splits)
qed

lemma updateRateLimits_probes [simp]:
  "probes (updateRateLimits up i s) = probes s @ [i]"
  by (simp add: updateRateLimits_def Let_def split: option.splits)

lemma updateRateLimits_calls_sleeps [simp]:
  "calls (updateRateLimits up i s) = calls s"
  "sleeps (updateRateLimits up i s) = sleeps s"
  "caught (updateRateLimits up i s) = caught s"
  "currentIndex (updateRateLimits up i s) = currentIndex s"
  by (simp_all add: updateRateLimits_def Let_def split: option.splits)

lemma readClock_fields [simp]:
  "tokens (snd (readClock up s)) = tokens s"
  "probes (snd (readClock up s)) = probes s"
  "calls (snd (readClock up s)) = calls s"
  "sleeps (snd (readClock up s)) = sleeps s"
  "caught (snd (readClock up s)) = caught s"
  "currentIndex (snd (readClock up s)) = currentIndex s"
  by (simp_all add: readClock_def)

text \<open>What one pass of the loop body does to the state.\<close>

lemma examineToken_frame:
  assumes "examineToken up apiType index s = (r, s')"
  shows "length (tokens s') = length (tokens s)
    \<and> (\<forall>j. j \<noteq> index \<longrightarrow> tokens s' ! j = tokens s ! j)
    \<and> (\<exists>new. probes s' = probes s @ new \<and> set new \<subseteq> {index})
    \<and> calls s' = calls s \<and> sleeps s' = sleeps s \<and> caught s' = caught s"
  using assms
  by (auto simp: examineToken_def selectToken_def readClock_def Let_def updateRateLimits_other
      split: if_splits option.splits)


lemma scanTokens_frame:
  "scanTokens up apiType idxs s = (r, s') \<Longrightarrow>
   length (tokens s') = length (tokens s)
   \<and> (\<forall>j. j \<notin> set idxs \<longrightarrow> tokens s' ! j = tokens s ! j)
   \<and> (\<exists>new. probes s' = probes s @ new \<and> set new \<subseteq> set idxs)
   \<and> calls s' = calls s \<and> sleeps s' = sleeps s \<and> caught s' = caught s"
proof (induction idxs arbitrary: s)
  case Nil
  then show ?case by simp
next
  case (Cons index rest)
  obtain r1 s1 where step: "examineToken up apiType index s = (r1, s1)"
    by (cases "examineToken up apiType index s")
  note f = examineToken_frame [OF step]
  show ?case
  proof (cases "r1 = Inr None")
    case True
    with Cons.prems step have "scanTokens up apiType rest s1 = (r, s')" by simp
    from Cons.IH [OF this] f show ?thesis by (auto; fastforce)
  next
    case False
    with Cons.prems step have "s' = s1"
      by (auto split: sum.splits option.splits)
    with f show ?thesis by auto
  qed
qed











lemma scanOrder_lock [simp]: "scanOrder (s\<lparr>rotationLock := b\<rparr>) = scanOrder s"
  by (simp add: scanOrder_def)




text \<open>
  Claim C4. Token A is unhealthy; token B is healthy, exhausted, and resets at second 2000.
  The loop passes over both. After the loop, B is alone in the filtered list, at position 0;
  the call sleeps until B's reset plus one second, and then probes and returns the token at
  index 0 of the pool, which is A.
\<close>

theorem wait_path_refreshes_other_token:
  "takesWaitPath frozenClock ''core'' unhealthyThenExhausted
   \<and> \<not> isHealthy (tokens unhealthyThenExhausted ! 0)
   \<and> isHealthy (tokens unhealthyThenExhausted ! 1)
   \<and> fst (getBestToken frozenClock ''core'' unhealthyThenExhausted) =
        Inr \<lparr>octokit = 0, tokenId = 0, quota = 4999\<rparr>
   \<and> probes (snd (getBestToken frozenClock ''core'' unhealthyThenExhausted)) = [0]
   \<and> sleeps (snd (getBestToken frozenClock ''core'' unhealthyThenExhausted)) = [1001000]"
  by (simp add: pool_eval)

section \<open>Properties of the retry loop\<close>

lemma startsWith_iff: "startsWith s p \<longleftrightarrow> (\<exists>post. s = p @ post)"
  by (induction s p rule: startsWith.induct) auto

lemma includesStr_iff: "includesStr s sub \<longleftrightarrow> (\<exists>pre post. s = pre @ sub @ post)"
proof (induction s)
  case Nil
  then show ?case by auto
next
  case (Cons c cs)
  show ?case
  proof
    assume "includesStr (c # cs) sub"
    then consider "startsWith (c # cs) sub" | "includesStr cs sub" by auto
    then show "\<exists>pre post. c # cs = pre @ sub @ post"
    proof cases
      case 1
      then obtain post where "c # cs = sub @ post" by (auto simp: startsWith_iff)
      then have "c # cs = [] @ sub @ post" by simp
      then show ?thesis by blast
    next
      case 2
      with Cons.IH obtain pre post where "cs = pre @ sub @ post" by blast
      then have "c # cs = (c # pre) @ sub @ post" by simp
      then show ?thesis by blast
    qed
  next
    assume "\<exists>pre post. c # cs = pre @ sub @ post"
    then obtain pre post where eq: "c # cs = pre @ sub @ post" by blast
    show "includesStr (c # cs) sub"
    proof (cases pre)
      case Nil
      with eq have "startsWith (c # cs) sub" by (auto simp: startsWith_iff)
      then show ?thesis by simp
    next
      case (Cons p ps)
      with eq have "cs = ps @ sub @ post" by simp
      with Cons.IH have "includesStr cs sub" by blast
      then show ?thesis by simp
    qed
  qed
qed

lemma secondary_is_rate_limit:
  "isSecondaryRateLimitError e \<Longrightarrow> isRateLimitError e"
proof -
  assume "isSecondaryRateLimitError e"
  then have st: "status e = Some 403"
    and "includesStr (message e) ''secondary rate limit''"
    by (simp_all add: isSecondaryRateLimitError_def)
  then obtain pre post where "message e = pre @ ''secondary rate limit'' @ post"
    by (auto simp: includesStr_iff)
  then have "message e = (pre @ ''secondary '') @ ''rate limit'' @ post" by simp
  then have "includesStr (message e) ''rate limit''"
    unfolding includesStr_iff by blast
  with st show ?thesis by (simp add: isRateLimitError_def)
qed

lemma server_not_client:
  "isServerError e \<Longrightarrow> \<not> isClientError e \<and> \<not> isRateLimitError e \<and> \<not> isSecondaryRateLimitError e"
  by (auto simp: isServerError_def isClientError_def isRateLimitError_def
      isSecondaryRateLimitError_def split: option.splits)

lemma catchError_fields [simp]:
  "tokens (catchError e s) = tokens s"
  "calls (catchError e s) = calls s"
  "sleeps (catchError e s) = sleeps s"
  "probes (catchError e s) = probes s"
  "caught (catchError e s) = caught s @ [e]"
  by (simp_all add: catchError_def)

lemma sleep_fields [simp]:
  "calls (sleep ms s) = calls s"
  "caught (sleep ms s) = caught s"
  "sleeps (sleep ms s) = sleeps s @ [ms]"
  by (simp_all add: sleep_def)

lemma execute_client_error:
  assumes "tryRequest up apiType requestFn s = (Inl error, s1)"
    and "isClientError error" and "\<not> isRateLimitError error"
  shows "executeAttempts up apiType requestFn (attempt # later) lastError s =
         (Inl error, catchError error s1)"
  using assms secondary_is_rate_limit [of error] by auto

lemma execute_server_error:
  assumes "tryRequest up apiType requestFn s = (Inl error, s1)" and "isServerError error"
  shows "executeAttempts up apiType requestFn (attempt # later) lastError s =
         executeAttempts up apiType requestFn later (Some error)
           (sleep (2000 * (int attempt + 1)) (catchError error s1))"
  using assms server_not_client [of error] by auto

lemma execute_rate_limit_error:
  assumes "tryRequest up apiType requestFn s = (Inl error, s1)" and "isRateLimitError error"
  shows "executeAttempts up apiType requestFn (attempt # later) lastError s =
         executeAttempts up apiType requestFn later (Some error) (catchError error s1)"
  using assms by auto

lemma resetTimesOf_frame:
  "resetTimesOf up apiType ts idx s = (rs, s') \<Longrightarrow>
   tokens s' = tokens s \<and> calls s' = calls s \<and> probes s' = probes s \<and> sleeps s' = sleeps s
   \<and> caught s' = caught s"
proof (induction ts arbitrary: idx s rs)
  case Nil
  then show ?case by simp
next
  case (Cons t ts)
  then show ?case
    by (auto simp: readClock_def Let_def split: prod.splits option.splits if_splits)
qed

lemma waitForReset_frame:
  "calls (snd (waitForReset up apiType s)) = calls s
   \<and> caught (snd (waitForReset up apiType s)) = caught s
   \<and> (\<exists>pauses. sleeps (snd (waitForReset up apiType s)) = sleeps s @ pauses)"
proof -
  obtain rs s1 where r: "resetTimesOf up apiType (filter isHealthy (tokens s)) 0 s = (rs, s1)"
    by (cases "resetTimesOf up apiType (filter isHealthy (tokens s)) 0 s")
  from resetTimesOf_frame [OF r]
  have "calls s1 = calls s" "caught s1 = caught s" "sleeps s1 = sleeps s" by simp_all
  with r show ?thesis
    by (simp add: waitForReset_def Let_def readClock_def sleep_def
        split: list.splits option.splits prod.splits)
qed

lemma getBestToken_frame:
  "calls (snd (getBestToken up apiType s)) = calls s
   \<and> caught (snd (getBestToken up apiType s)) = caught s
   \<and> (\<exists>pauses. sleeps (snd (getBestToken up apiType s)) = sleeps s @ pauses)"
proof -
  let ?s0 = "s\<lparr>rotationLock := True\<rparr>"
  obtain found s1 where scan: "scanTokens up apiType (scanOrder ?s0) ?s0 = (found, s1)"
    by (cases "scanTokens up apiType (scanOrder ?s0) ?s0")
  from scanTokens_frame [OF scan]
  have c: "calls s1 = calls s" "caught s1 = caught s" "sleeps s1 = sleeps s" by simp_all
  from waitForReset_frame [of up apiType s1] obtain pauses where
    w: "calls (snd (waitForReset up apiType s1)) = calls s1"
       "caught (snd (waitForReset up apiType s1)) = caught s1"
       "sleeps (snd (waitForReset up apiType s1)) = sleeps s1 @ pauses"
    by blast
  show ?thesis
    using scan c w
    by (auto simp: getBestToken_def Let_def split: sum.splits option.splits prod.splits)
qed

lemma tryRequest_frame:
  "calls (snd (tryRequest up apiType requestFn s)) \<le> Suc (calls s)
   \<and> caught (snd (tryRequest up apiType requestFn s)) = caught s
   \<and> (\<exists>pauses. sleeps (snd (tryRequest up apiType requestFn s)) = sleeps s @ pauses)"
  using getBestToken_frame [of up apiType s]
  by (auto simp: tryRequest_def Let_def split: prod.splits sum.splits)

lemma executeAttempts_calls:
  "calls (snd (executeAttempts up apiType requestFn attempts lastError s))
     \<le> calls s + length attempts"
proof (induction attempts arbitrary: lastError s)
  case Nil
  then show ?case by (simp split: option.splits)
next
  case (Cons attempt later)
  obtain r s1 where t: "tryRequest up apiType requestFn s = (r, s1)"
    by (cases "tryRequest up apiType requestFn s")
  with tryRequest_frame [of up apiType requestFn s] have c: "calls s1 \<le> Suc (calls s)" by simp
  show ?case
  proof (cases r)
    case (Inr result)
    with t c show ?thesis by simp
  next
    case (Inl error)
    have b: "calls (snd (executeAttempts up apiType requestFn later (Some error) s2))
               \<le> Suc (calls s + length later)" if "calls s2 = calls s1" for s2
    proof -
      have "calls (snd (executeAttempts up apiType requestFn later (Some error) s2))
               \<le> calls s2 + length later"
        by (rule Cons.IH)
      with c that show ?thesis by simp
    qed
    from t Inl c b [of "catchError error s1"] b [of "sleep 60000 (catchError error s1)"]
      b [of "sleep (2000 * (int attempt + 1)) (catchError error s1)"]
    show ?thesis by auto
  qed
qed

text \<open>
  The errors caught during a run of the loop, in order: all but the last were followed by
  another attempt, every status of 500 or more by its pause, and the error thrown is the
  last one caught.
\<close>

lemma executeAttempts_log:
  assumes "executeAttempts up apiType requestFn attempts lastError s = (res, s')"
  shows "\<exists>log pauses. caught s' = caught s @ log \<and> sleeps s' = sleeps s @ pauses
     \<and> length log \<le> length attempts
     \<and> (\<forall>x \<in> set (butlast log). isRateLimitError x \<or> isServerError x)
     \<and> (\<forall>(n, x) \<in> set (zip attempts log).
           isServerError x \<longrightarrow> 2000 * (int n + 1) \<in> set pauses)
     \<and> (case res of
          Inl e \<Rightarrow>
            if log = []
            then attempts = []
                 \<and> e = (case lastError of
                          Some e0 \<Rightarrow> e0
                        | None \<Rightarrow> plainError ''All token rotation attempts failed'')
            else e = last log
                 \<and> (isRateLimitError e \<or> isServerError e \<longrightarrow> length log = length attempts)
        | Inr r \<Rightarrow>
            length log < length attempts
            \<and> (\<forall>x \<in> set log. isRateLimitError x \<or> isServerError x))"
  using assms
proof (induction attempts arbitrary: lastError s)
  case Nil
  then have "caught s' = caught s @ [] \<and> sleeps s' = sleeps s @ []"
    and "res = Inl (case lastError of Some e0 \<Rightarrow> e0
                    | None \<Rightarrow> plainError ''All token rotation attempts failed'')"
    by (auto split: option.splits)
  then show ?case by (intro exI [of _ "[]"]) simp
next
  case (Cons attempt later)
  obtain r s1 where t: "tryRequest up apiType requestFn s = (r, s1)"
    by (cases "tryRequest up apiType requestFn s")
  from tryRequest_frame [of up apiType requestFn s] t obtain before where
    f: "caught s1 = caught s" "sleeps s1 = sleeps s @ before"
    by auto
  show ?case
  proof (cases r)
    case (Inr result)
    with t Cons.prems have "res = Inr result" "s' = s1" by simp_all
    with f show ?thesis
      by (intro exI [of _ "[]"] exI [of _ before]) simp
  next
    case (Inl error)
    have again: ?thesis
      if run: "executeAttempts up apiType requestFn later (Some error) s2 = (res, s')"
        and retry: "isRateLimitError error \<or> isServerError error"
        and c2: "caught s2 = caught s @ [error]"
        and p2: "sleeps s2 = sleeps s @ pre"
        and backoff: "isServerError error \<longrightarrow> 2000 * (int attempt + 1) \<in> set pre"
      for s2 pre
    proof -
      from Cons.IH [OF run] obtain log pauses where
        ih: "caught s' = caught s2 @ log" "sleeps s' = sleeps s2 @ pauses"
          "length log \<le> length later"
          "\<forall>x \<in> set (butlast log). isRateLimitError x \<or> isServerError x"
          "\<forall>(n, x) \<in> set (zip later log).
              isServerError x \<longrightarrow> 2000 * (int n + 1) \<in> set pauses"
          "case res of
             Inl e \<Rightarrow>
               if log = []
               then later = [] \<and> e = (case Some error of
                          Some e0 \<Rightarrow> e0
                        | None \<Rightarrow> plainError ''All token rotation attempts failed'')
               else e = last log
                 \<and> (isRateLimitError e \<or> isServerError e \<longrightarrow> length log = length later)
           | Inr r \<Rightarrow>
               length log < length later
               \<and> (\<forall>x \<in> set log. isRateLimitError x \<or> isServerError x)"
        by blast
      have 1: "caught s' = caught s @ (error # log)" using ih(1) c2 by simp
      have 2: "sleeps s' = sleeps s @ (pre @ pauses)" using ih(2) p2 by simp
      have 3: "length (error # log) \<le> length (attempt # later)" using ih(3) by simp
      have 4: "\<forall>x \<in> set (butlast (error # log)). isRateLimitError x \<or> isServerError x"
        using ih(4) retry by simp
      have 5: "\<forall>(n, x) \<in> set (zip (attempt # later) (error # log)).
              isServerError x \<longrightarrow> 2000 * (int n + 1) \<in> set (pre @ pauses)"
        using ih(5) backoff by auto
      have 6: "case res of
             Inl e \<Rightarrow>
               if error # log = []
               then attempt # later = []
                 \<and> e = (case lastError of
                          Some e0 \<Rightarrow> e0
                        | None \<Rightarrow> plainError ''All token rotation attempts failed'')
               else e = last (error # log)
                 \<and> (isRateLimitError e \<or> isServerError e \<longrightarrow>
                      length (error # log) = length (attempt # later))
           | Inr r \<Rightarrow>
               length (error # log) < length (attempt # later)
               \<and> (\<forall>x \<in> set (error # log). isRateLimitError x \<or> isServerError x)"
        using ih(6) ih(3) retry by (auto split: sum.splits if_splits)
      from 1 2 3 4 5 6 show ?thesis by blast
    qed
    have thrown: ?thesis
      if "res = Inl error" and "s' = catchError error s1"
        and "\<not> (isRateLimitError error \<or> isServerError error)"
    proof -
      from that f have "caught s' = caught s @ [error]" "sleeps s' = sleeps s @ before"
        by simp_all
      with that show ?thesis
        by (intro exI [of _ "[error]"] exI [of _ before]) simp
    qed
    consider (limit) "isRateLimitError error"
      | (client) "\<not> isRateLimitError error" "isClientError error"
      | (server) "isServerError error"
      | (other) "\<not> isRateLimitError error" "\<not> isClientError error" "\<not> isServerError error"
      by blast
    then show ?thesis
    proof cases
      case limit
      from Cons.prems t [unfolded Inl] limit
      have "executeAttempts up apiType requestFn later (Some error) (catchError error s1) =
            (res, s')"
        by (simp add: execute_rate_limit_error)
      moreover from limit server_not_client [of error] have "\<not> isServerError error"
        by blast
      ultimately show ?thesis
        using again [of "catchError error s1" before] limit f by simp
    next
      case client
      from client(1) secondary_is_rate_limit [of error]
      have "\<not> isSecondaryRateLimitError error" by blast
      with Cons.prems t [unfolded Inl] client
      have "res = Inl error" "s' = catchError error s1"
        by simp_all
      moreover from client server_not_client [of error] have "\<not> isServerError error" by blast
      ultimately show ?thesis using thrown client(1) by blast
    next
      case server
      from server server_not_client [of error]
      have "\<not> isClientError error" "\<not> isRateLimitError error"
        "\<not> isSecondaryRateLimitError error"
        by simp_all
      with Cons.prems t [unfolded Inl] server
      have "executeAttempts up apiType requestFn later (Some error)
              (sleep (2000 * (int attempt + 1)) (catchError error s1)) = (res, s')"
        by simp
      then show ?thesis
        using again [of "sleep (2000 * (int attempt + 1)) (catchError error s1)"
            "before @ [2000 * (int attempt + 1)]"] server f
        by simp
    next
      case other
      from other(1) secondary_is_rate_limit [of error]
      have "\<not> isSecondaryRateLimitError error" by blast
      with Cons.prems t [unfolded Inl] other
      have "res = Inl error" "s' = catchError error s1" by simp_all
      with thrown other show ?thesis by blast
    qed
  qed
qed

text \<open>
  Claim C3. In the loop of \<open>execute\<close>, for an attempt numbered \<open>attempt\<close> (from 0) whose
  \<open>try\<close> block throws \<open>error\<close>: with a status from 400 to 499 that is not a 403 rate limit
  error, the loop ends with that error once it is recorded, with no pause and no further
  attempt; with a status of 500 or more, the error is recorded, a pause of
  \<open>2000 * (attempt + 1)\<close> ms follows and the remaining attempts run; with a 403 rate limit
  error, the error is recorded and the remaining attempts run at once; when no attempt
  remains the error recorded last is thrown. For a whole call of \<open>execute\<close>: the request
  function runs at most once per token; the errors caught during the call, in order, are
  at most one per token; every one but the last is a rate limit error or has a status of
  500 or more; the error caught by attempt \<open>n\<close> with a status of 500 or more has its pause of
  \<open>2000 * (n + 1)\<close> ms among the pauses of the call; a caught error with a status from 400
  to 499 that is not a rate limit error is the error thrown; when the call throws, it
  throws the error caught last, and if that one is a rate limit error or has a status of 500
  or more then every token had its attempt; when the call returns, every caught error was
  a rate limit error or had a status of 500 or more and some attempt was left.
\<close>

theorem execute_retry_policy:
  "(tryRequest up apiType requestFn s = (Inl error, s1) \<and> isClientError error \<and>
      \<not> isRateLimitError error \<longrightarrow>
        executeAttempts up apiType requestFn (attempt # later) lastError s =
          (Inl error, catchError error s1))
   \<and> (tryRequest up apiType requestFn s = (Inl error, s1) \<and> isServerError error \<longrightarrow>
        executeAttempts up apiType requestFn (attempt # later) lastError s =
          executeAttempts up apiType requestFn later (Some error)
            (sleep (2000 * (int attempt + 1)) (catchError error s1)))
   \<and> (tryRequest up apiType requestFn s = (Inl error, s1) \<and> isRateLimitError error \<longrightarrow>
        executeAttempts up apiType requestFn (attempt # later) lastError s =
          executeAttempts up apiType requestFn later (Some error) (catchError error s1))
   \<and> executeAttempts up apiType requestFn [] (Some error) s = (Inl error, s)
   \<and> calls (snd (execute up apiType requestFn s)) \<le> calls s + length (tokens s)
   \<and> (\<exists>log pauses.
         caught (snd (execute up apiType requestFn s)) = caught s @ log
         \<and> sleeps (snd (execute up apiType requestFn s)) = sleeps s @ pauses
         \<and> length log \<le> length (tokens s)
         \<and> (\<forall>x \<in> set (butlast log). isRateLimitError x \<or> isServerError x)
         \<and> (\<forall>(n, x) \<in> set (zip [0..<length (tokens s)] log).
               isServerError x \<longrightarrow> 2000 * (int n + 1) \<in> set pauses)
         \<and> (\<forall>x \<in> set log. isClientError x \<and> \<not> isRateLimitError x \<longrightarrow>
               fst (execute up apiType requestFn s) = Inl x)
         \<and> (case fst (execute up apiType requestFn s) of
              Inl e \<Rightarrow>
                if tokens s = []
                then log = [] \<and> e = plainError ''All token rotation attempts failed''
                else log \<noteq> [] \<and> e = last log
                     \<and> (isRateLimitError e \<or> isServerError e \<longrightarrow>
                          length log = length (tokens s))
            | Inr r \<Rightarrow>
                length log < length (tokens s)
                \<and> (\<forall>x \<in> set log. isRateLimitError x \<or> isServerError x)))"
proof (intro conjI impI)
  assume "tryRequest up apiType requestFn s = (Inl error, s1) \<and> isClientError error \<and>
      \<not> isRateLimitError error"
  then show "executeAttempts up apiType requestFn (attempt # later) lastError s =
      (Inl error, catchError error s1)"
    using execute_client_error by blast
next
  assume "tryRequest up apiType requestFn s = (Inl error, s1) \<and> isServerError error"
  then show "executeAttempts up apiType requestFn (attempt # later) lastError s =
          executeAttempts up apiType requestFn later (Some error)
            (sleep (2000 * (int attempt + 1)) (catchError error s1))"
    using execute_server_error by blast
next
  assume "tryRequest up apiType requestFn s = (Inl error, s1) \<and> isRateLimitError error"
  then show "executeAttempts up apiType requestFn (attempt # later) lastError s =
          executeAttempts up apiType requestFn later (Some error) (catchError error s1)"
    using execute_rate_limit_error by blast
next
  show "executeAttempts up apiType requestFn [] (Some error) s = (Inl error, s)" by simp
next
  show "calls (snd (execute up apiType requestFn s)) \<le> calls s + length (tokens s)"
    using executeAttempts_calls [of up apiType requestFn "[0..<length (tokens s)]" None s]
    by (simp add: execute_def)
next
  let ?res = "fst (execute up apiType requestFn s)"
  let ?s' = "snd (execute up apiType requestFn s)"
  have run: "executeAttempts up apiType requestFn [0..<length (tokens s)] None s = (?res, ?s')"
    by (simp add: execute_def)
  from executeAttempts_log [OF run] obtain log pauses where
    l: "caught ?s' = caught s @ log" "sleeps ?s' = sleeps s @ pauses"
      "length log \<le> length (tokens s)"
      "\<forall>x \<in> set (butlast log). isRateLimitError x \<or> isServerError x"
      "\<forall>(n, x) \<in> set (zip [0..<length (tokens s)] log).
          isServerError x \<longrightarrow> 2000 * (int n + 1) \<in> set pauses"
    and fin: "case ?res of
          Inl e \<Rightarrow>
            if log = []
            then [0..<length (tokens s)] = []
                 \<and> e = (case None of
                          Some e0 \<Rightarrow> e0
                        | None \<Rightarrow> plainError ''All token rotation attempts failed'')
            else e = last log
                 \<and> (isRateLimitError e \<or> isServerError e \<longrightarrow>
                      length log = length [0..<length (tokens s)])
        | Inr r \<Rightarrow>
            length log < length [0..<length (tokens s)]
            \<and> (\<forall>x \<in> set log. isRateLimitError x \<or> isServerError x)"
    by auto
  have outcome: "case ?res of
              Inl e \<Rightarrow>
                if tokens s = []
                then log = [] \<and> e = plainError ''All token rotation attempts failed''
                else log \<noteq> [] \<and> e = last log
                     \<and> (isRateLimitError e \<or> isServerError e \<longrightarrow>
                          length log = length (tokens s))
            | Inr r \<Rightarrow>
                length log < length (tokens s)
                \<and> (\<forall>x \<in> set log. isRateLimitError x \<or> isServerError x)"
    using fin l(3) by (auto split: sum.splits if_splits)
  have final: "?res = Inl x" if x: "x \<in> set log" "isClientError x" "\<not> isRateLimitError x" for x
  proof -
    from x server_not_client [of x] have nr: "\<not> (isRateLimitError x \<or> isServerError x)"
      by blast
    from x(1) have ne: "log \<noteq> []" by auto
    with x(1) have "x \<in> set (butlast log) \<or> x = last log"
      by (metis append_butlast_last_id Un_iff insert_iff list.set(2) set_append empty_iff
          list.set(1))
    with l(4) nr have lst: "x = last log" by blast
    show ?thesis
    proof (cases ?res)
      case (Inl e)
      with fin ne lst show ?thesis by simp
    next
      case (Inr r)
      with fin x(1) nr show ?thesis by auto
    qed
  qed
  from l outcome final
  show "\<exists>log pauses.
         caught ?s' = caught s @ log
         \<and> sleeps ?s' = sleeps s @ pauses
         \<and> length log \<le> length (tokens s)
         \<and> (\<forall>x \<in> set (butlast log). isRateLimitError x \<or> isServerError x)
         \<and> (\<forall>(n, x) \<in> set (zip [0..<length (tokens s)] log).
               isServerError x \<longrightarrow> 2000 * (int n + 1) \<in> set pauses)
         \<and> (\<forall>x \<in> set log. isClientError x \<and> \<not> isRateLimitError x \<longrightarrow> ?res = Inl x)
         \<and> (case ?res of
              Inl e \<Rightarrow>
                if tokens s = []
                then log = [] \<and> e = plainError ''All token rotation attempts failed''
                else log \<noteq> [] \<and> e = last log
                     \<and> (isRateLimitError e \<or> isServerError e \<longrightarrow>
                          length log = length (tokens s))
            | Inr r \<Rightarrow>
                length log < length (tokens s)
                \<and> (\<forall>x \<in> set log. isRateLimitError x \<or> isServerError x))"
    by blast
qed

text \<open>
  Two tokens. A 404 ends after one call without a pause; a 503 is tried twice, with pauses
  of 2000 and 4000 ms, and then thrown; a 403 rate limit error followed by a different one
  (whose message names the secondary limit) is tried twice without a pause, and the second
  error is the one thrown.
\<close>

theorem execute_retry_witness:
  "fst (execute frozenClock ''core'' (alwaysFails notFound) bothFresh) = Inl notFound
   \<and> calls (snd (execute frozenClock ''core'' (alwaysFails notFound) bothFresh)) = 1
   \<and> sleeps (snd (execute frozenClock ''core'' (alwaysFails notFound) bothFresh)) = []
   \<and> fst (execute frozenClock ''core'' (alwaysFails unavailable) bothFresh) = Inl unavailable
   \<and> calls (snd (execute frozenClock ''core'' (alwaysFails unavailable) bothFresh)) = 2
   \<and> sleeps (snd (execute frozenClock ''core'' (alwaysFails unavailable) bothFresh)) =
        [2000, 4000]
   \<and> fst (execute frozenClock ''core'' (failsInTurn [primaryLimit, abuseLimit]) bothFresh) =
        Inl abuseLimit
   \<and> calls (snd (execute frozenClock ''core'' (failsInTurn [primaryLimit, abuseLimit])
        bothFresh)) = 2
   \<and> sleeps (snd (execute frozenClock ''core'' (failsInTurn [primaryLimit, abuseLimit])
        bothFresh)) = []
   \<and> caught (snd (execute frozenClock ''core'' (failsInTurn [primaryLimit, abuseLimit])
        bothFresh)) = [primaryLimit, abuseLimit]"
proof -
  let ?s = bothFresh
  let ?nf = "alwaysFails notFound"
  let ?un = "alwaysFails unavailable"
  let ?rl = "failsInTurn [primaryLimit, abuseLimit]"
  have two: "[0..<length (tokens ?s)] = [0, 1]"
    by (simp add: bothFresh_def samplePool_def upt_rec)
  txt \<open>A 404 on the first attempt is rethrown at once.\<close>
  let ?a = "snd (tryRequest frozenClock ''core'' ?nf ?s)"
  have "fst (tryRequest frozenClock ''core'' ?nf ?s) = Inl notFound"
    by (simp add: tryRequest_def pool_eval alwaysFails_def)
  then have t: "tryRequest frozenClock ''core'' ?nf ?s = (Inl notFound, ?a)"
    by (simp add: prod_eq_iff)
  have c: "isClientError notFound" "\<not> isRateLimitError notFound"
    by (simp_all add: error_eval)
  from execute_retry_policy [of frozenClock "''core''" ?nf ?s notFound ?a 0 "[1]" None] t c
  have nf: "execute frozenClock ''core'' ?nf ?s = (Inl notFound, catchError notFound ?a)"
    by (simp add: execute_def two)
  have a: "calls (catchError notFound ?a) = 1" "sleeps (catchError notFound ?a) = []"
    by (simp_all add: tryRequest_def pool_eval alwaysFails_def)
  txt \<open>A 503 on both attempts: two pauses, then the error is thrown.\<close>
  let ?b = "snd (tryRequest frozenClock ''core'' ?un ?s)"
  let ?b1 = "sleep (2000 * (int 0 + 1)) (catchError unavailable ?b)"
  let ?d = "snd (tryRequest frozenClock ''core'' ?un ?b1)"
  let ?d1 = "sleep (2000 * (int 1 + 1)) (catchError unavailable ?d)"
  have "fst (tryRequest frozenClock ''core'' ?un ?s) = Inl unavailable"
    by (simp add: tryRequest_def pool_eval alwaysFails_def)
  then have t1: "tryRequest frozenClock ''core'' ?un ?s = (Inl unavailable, ?b)"
    by (simp add: prod_eq_iff)
  have "fst (tryRequest frozenClock ''core'' ?un ?b1) = Inl unavailable"
    by (simp add: tryRequest_def pool_eval alwaysFails_def catchError_def)
  then have t2: "tryRequest frozenClock ''core'' ?un ?b1 = (Inl unavailable, ?d)"
    by (simp add: prod_eq_iff)
  have sv: "isServerError unavailable" by (simp add: error_eval)
  from execute_retry_policy [of frozenClock "''core''" ?un ?s unavailable ?b 0 "[1]" None] t1 sv
  have s1: "executeAttempts frozenClock ''core'' ?un [0, 1] None ?s =
            executeAttempts frozenClock ''core'' ?un [1] (Some unavailable) ?b1"
    by blast
  from execute_retry_policy [of frozenClock "''core''" ?un ?b1 unavailable ?d 1 "[]" "Some unavailable"]
    t2 sv
  have s2: "executeAttempts frozenClock ''core'' ?un [1] (Some unavailable) ?b1 =
            executeAttempts frozenClock ''core'' ?un [] (Some unavailable) ?d1"
    by blast
  from execute_retry_policy [of frozenClock "''core''" ?un ?d1 unavailable]
  have s3: "executeAttempts frozenClock ''core'' ?un [] (Some unavailable) ?d1 =
            (Inl unavailable, ?d1)"
    by blast
  from s1 s2 s3 have un: "execute frozenClock ''core'' ?un ?s = (Inl unavailable, ?d1)"
    by (simp add: execute_def two)
  have d: "calls ?d1 = 2" "sleeps ?d1 = [2000, 4000]"
    by (simp_all add: tryRequest_def pool_eval alwaysFails_def catchError_def)
  txt \<open>Two different rate limit errors: no pause, and the second one is thrown.\<close>
  let ?e = "snd (tryRequest frozenClock ''core'' ?rl ?s)"
  let ?e1 = "catchError primaryLimit ?e"
  let ?f = "snd (tryRequest frozenClock ''core'' ?rl ?e1)"
  let ?f1 = "catchError abuseLimit ?f"
  have "fst (tryRequest frozenClock ''core'' ?rl ?s) = Inl primaryLimit"
    by (simp add: tryRequest_def pool_eval failsInTurn_def)
  then have r1: "tryRequest frozenClock ''core'' ?rl ?s = (Inl primaryLimit, ?e)"
    by (simp add: prod_eq_iff)
  have "fst (tryRequest frozenClock ''core'' ?rl ?e1) = Inl abuseLimit"
    by (simp add: tryRequest_def pool_eval failsInTurn_def catchError_def)
  then have r2: "tryRequest frozenClock ''core'' ?rl ?e1 = (Inl abuseLimit, ?f)"
    by (simp add: prod_eq_iff)
  have lim: "isRateLimitError primaryLimit" "isRateLimitError abuseLimit"
    by (simp_all add: isRateLimitError_def primaryLimit_def abuseLimit_def)
  from execute_retry_policy [of frozenClock "''core''" ?rl ?s primaryLimit ?e 0 "[1]" None]
    r1 lim(1)
  have l1: "executeAttempts frozenClock ''core'' ?rl [0, 1] None ?s =
            executeAttempts frozenClock ''core'' ?rl [1] (Some primaryLimit) ?e1"
    by blast
  from execute_retry_policy [of frozenClock "''core''" ?rl ?e1 abuseLimit ?f 1 "[]"
      "Some primaryLimit"] r2 lim(2)
  have l2: "executeAttempts frozenClock ''core'' ?rl [1] (Some primaryLimit) ?e1 =
            executeAttempts frozenClock ''core'' ?rl [] (Some abuseLimit) ?f1"
    by blast
  from execute_retry_policy [of frozenClock "''core''" ?rl ?f1 abuseLimit]
  have l3: "executeAttempts frozenClock ''core'' ?rl [] (Some abuseLimit) ?f1 =
            (Inl abuseLimit, ?f1)"
    by blast
  from l1 l2 l3 have rl: "execute frozenClock ''core'' ?rl ?s = (Inl abuseLimit, ?f1)"
    by (simp add: execute_def two)
  have g: "calls ?f1 = 2" "sleeps ?f1 = []" "caught ?f1 = [primaryLimit, abuseLimit]"
    by (simp_all add: tryRequest_def pool_eval failsInTurn_def catchError_def)
  from nf a un d rl g show ?thesis by simp
qed

section \<open>Properties of an activity batch\<close>

lemma getContributorsActivity_no_404:
  assumes "getContributorsActivity gh ownerName repoName s = Some y"
  shows "\<forall>e s'. y = (Inl e, s') \<longrightarrow> status e \<noteq> Some 404"
proof (rule getContributorsActivity.raw_induct
    [where P = "\<lambda>gh ownerName repoName s y. \<forall>e s'. y = (Inl e, s') \<longrightarrow> status e \<noteq> Some 404",
     OF _ assms], goal_cases)
  case (1 rec gh ownerName repoName s y)
  show ?case
  proof (cases "stillComputing gh ownerName repoName (executions s)")
    case True
    with 1(2) have "rec gh ownerName repoName (pause 2000 (executed s)) = Some y"
      by (auto simp: stillComputing_def split: sum.splits if_splits)
    from 1(1) [OF this] show ?thesis .
  next
    case False
    with 1(2) show ?thesis
      by (auto simp: stillComputing_def split: sum.splits if_splits)
  qed
qed

lemma processRepository_no_404:
  "processRepository gh repo referenceTime s = Some (Inl e, s') \<Longrightarrow> status e \<noteq> Some 404"
  using getContributorsActivity_no_404 [of gh "owner (snd repo)" "name (snd repo)" s]
  by (auto simp: processRepository_def split: option.splits sum.splits if_splits)

lemma processContributor_repositories:
  "repositories (snd (processContributor gh contrib repositoryId referenceTime s)) = repositories s"
  by (auto simp: processContributor_def getDeveloper_def resolveDeveloper_def getUser_def
      upsertDeveloper_def bulkCreateActivities_def stored_def executed_def Let_def
      split: option.splits sum.splits if_splits prod.splits)

lemma processContributors_repositories:
  "repositories (processContributors gh contribs repositoryId referenceTime s) = repositories s"
  by (induction contribs arbitrary: s) (simp_all add: processContributor_repositories)

lemma getContributorsActivity_repositories:
  assumes "getContributorsActivity gh ownerName repoName s = Some y"
  shows "repositories (snd y) = repositories s"
proof (rule getContributorsActivity.raw_induct
    [where P = "\<lambda>gh ownerName repoName s y. repositories (snd y) = repositories s",
     OF _ assms], goal_cases)
  case (1 rec gh ownerName repoName s y)
  show ?case
  proof (cases "stillComputing gh ownerName repoName (executions s)")
    case True
    with 1(2) have "rec gh ownerName repoName (pause 2000 (executed s)) = Some y"
      by (auto simp: stillComputing_def split: sum.splits if_splits)
    from 1(1) [OF this] show ?thesis by (simp add: pause_def executed_def)
  next
    case False
    with 1(2) show ?thesis
      by (auto simp: stillComputing_def executed_def split: sum.splits if_splits)
  qed
qed

lemma processRepository_repositories:
  "processRepository gh repo referenceTime s = Some (r, s') \<Longrightarrow> repositories s' = repositories s"
  using getContributorsActivity_repositories [of gh "owner (snd repo)" "name (snd repo)" s]
  by (auto simp: processRepository_def processContributors_repositories
      split: option.splits sum.splits if_splits)

text \<open>
  Whatever the upstream answers, a batch leaves the repository table as it was: the branch of
  \<open>processBatch\<close> that calls \<open>markRepositoryClosedSource\<close> is never taken.
\<close>

lemma batchLoop_never_marks:
  "batchLoop gh referenceTime repos processedCount errorCount s = Some (r, s') \<Longrightarrow>
   repositories s' = repositories s"
proof (induction repos arbitrary: processedCount errorCount s)
  case Nil
  then show ?case by simp
next
  case (Cons repo later)
  show ?case
  proof (cases "processRepository gh repo referenceTime s")
    case None
    with Cons.prems show ?thesis by simp
  next
    case (Some y)
    obtain res s1 where y: "y = (res, s1)" by (cases y)
    note same = processRepository_repositories [OF Some [unfolded y]]
    show ?thesis
    proof (cases res)
      case (Inr u)
      with Some y Cons.prems
      have "batchLoop gh referenceTime later (Suc processedCount) errorCount s1 = Some (r, s')"
        by simp
      from Cons.IH [OF this] same show ?thesis by simp
    next
      case (Inl error)
      with Some y have "status error \<noteq> Some 404"
        using processRepository_no_404 by blast
      with Inl Some y Cons.prems
      have "batchLoop gh referenceTime later processedCount (Suc errorCount) s1 = Some (r, s')"
        by simp
      from Cons.IH [OF this] same show ?thesis by simp
    qed
  qed
qed

text \<open>
  Claim C6. The statistics request for the one repository of the batch fails with a 404.
  \<open>getContributorsActivity\<close> turns the 404 into \<open>null\<close>, \<open>processRepository\<close> returns
  normally, and the batch counts the repository as processed: no storage call is made and
  the row is still not closed source.
\<close>

theorem missing_repository_not_marked:
  "processBatch quietGithub 1700000000000 [(1, sampleRow)]
      (emptyWorld\<lparr>repositories := [sampleRow]\<rparr>)
   = Some (Inr (1, 0), emptyWorld\<lparr>repositories := [sampleRow], executions := 1\<rparr>)
   \<and> \<not> isClosedSource sampleRow"
  by (simp add: processBatch_def processRepository_def getContributorsActivity.simps
      world_eval sampleRow_def makeRepoData_def)

section \<open>Properties of a discovery run\<close>







lemma saveRepoTypes_frame [simp]:
  "repositories (saveRepoTypes gh rt s) = repositories s"
  "processedRepos (saveRepoTypes gh rt s) = processedRepos s"
  by (simp_all add: saveRepoTypes_def bulkCreateRepoTypes_def stored_def)

lemma rowKey_makeRepoData [simp]: "rowKey (makeRepoData r details eco) = repoKey r"
  by (simp add: rowKey_def makeRepoData_def repoKey_def)



















end
